theory Spec2Isabelle
  imports Main "HOL-Library.Char_ord" "HOL-Library.List_Lexorder" "HOL-Library.Sublist"
begin

section \<open>Strings and characters\<close>

text \<open>
  JavaScript strings are sequences of UTF-16 code units; the model uses \<open>string\<close>, that is
  lists of 8-bit characters, so it covers the texts whose code units are below 256.
  The regular expressions of the source have no \<open>u\<close> flag: \<open>\w\<close> is
  \<open>[A-Za-z0-9_]\<close>, and the \<open>i\<close> flag never identifies an ASCII character with a
  non-ASCII one.
\<close>

definition isUpper :: "char \<Rightarrow> bool" where
  "isUpper c = (65 \<le> (of_char c :: nat) \<and> (of_char c :: nat) \<le> 90)"

definition isLower :: "char \<Rightarrow> bool" where
  "isLower c = (97 \<le> (of_char c :: nat) \<and> (of_char c :: nat) \<le> 122)"

definition isDigit :: "char \<Rightarrow> bool" where
  "isDigit c = (48 \<le> (of_char c :: nat) \<and> (of_char c :: nat) \<le> 57)"

definition isAlnum :: "char \<Rightarrow> bool" where
  "isAlnum c = (isUpper c \<or> isLower c \<or> isDigit c)"

text \<open>\<open>String.prototype.toUpperCase\<close> on one code unit below 128.\<close>

definition toUpperCase :: "char \<Rightarrow> char" where
  "toUpperCase c = (if isLower c then char_of ((of_char c :: nat) - 32) else c)"

text \<open>\<open>Array.prototype.join\<close> on strings.\<close>

fun join :: "string \<Rightarrow> string list \<Rightarrow> string" where
  "join sep [] = []"
| "join sep [x] = x"
| "join sep (x # y # ys) = x @ sep @ join sep (y # ys)"

section \<open>dep-registry.js: the data model\<close>

text \<open>\<open>DepRegistry.types = { ident: 1, default: 2, prop: 3 }\<close>.\<close>

datatype ExportKind = Ident | Default | Prop

text \<open>
  A version is the runtime's version string or the manifest's version string for packages,
  and the file's mtime (a number) for project files; \<open>register\<close> compares with
  \<open>!==\<close>, so a number never equals a string.
\<close>

datatype Version = VString string | VNumber int

record RegistryEntry =
  version :: Version
  idents :: "string list"
  defaults :: "string list"
  props :: "string list"

record DepInfo =
  dep_id :: string
  dep_priority :: nat
  dep_type :: ExportKind

text \<open>
  \<open>this.registry\<close> is an object enumerated with \<open>for ... in\<close>: an association list in
  insertion order, where assigning to a key that is present keeps the key's position.
  (Keys that are array indices, which JavaScript enumerates first, and the key
  \<open>__proto__\<close> are outside the model of the registry.) \<open>this.deps\<close> is only read and
  written by key: a map of its own properties.
\<close>

type_synonym Registry = "(string \<times> RegistryEntry) list"
type_synonym Deps = "string \<rightharpoonup> DepInfo"

text \<open>
  \<open>this.deps\<close> and the object \<open>node\<close> of \<open>computeDeps\<close> are plain objects: reading a
  key that is not an own property gives the member of that name inherited from
  \<open>Object.prototype\<close>, when there is one. These are the names of its members.
\<close>

definition objectPrototypeNames :: "string list" where
  "objectPrototypeNames =
     [''constructor'', ''__defineGetter__'', ''__defineSetter__'', ''hasOwnProperty'',
      ''__lookupGetter__'', ''__lookupSetter__'', ''isPrototypeOf'', ''propertyIsEnumerable'',
      ''toString'', ''valueOf'', ''__proto__'', ''toLocaleString'']"

text \<open>
  The value of \<open>this.deps[name]\<close>: \<open>undefined\<close>, an inherited member (a function or
  \<open>Object.prototype\<close> itself, truthy, without \<open>id\<close>, \<open>priority\<close> or \<open>type\<close>), or the
  dep stored under the name.
\<close>

datatype Lookup = Absent | Inherited | Own DepInfo

fun assign :: "string \<Rightarrow> 'v \<Rightarrow> (string \<times> 'v) list \<Rightarrow> (string \<times> 'v) list" where
  "assign k v [] = [(k, v)]"
| "assign k v ((k', v') # kvs) = (if k' = k then (k, v) # kvs else (k', v') # assign k v kvs)"

section \<open>dep-registry.js: computeDeps and associate\<close>

text \<open>
  \<open>associate({ name, id, priority, type })\<close>: the condition of the source is
  \<open>!dep || dep.priority < priority || dep.type === types.prop && type !== types.prop\<close>.
\<close>

definition search :: "Deps \<Rightarrow> string \<Rightarrow> Lookup" where
  "search deps name =
     (case deps name of
        Some dep \<Rightarrow> Own dep
      | None \<Rightarrow> if name \<in> set objectPrototypeNames then Inherited else Absent)"

text \<open>
  For an inherited member \<open>dep.priority\<close> and \<open>dep.type\<close> are \<open>undefined\<close>: all three
  tests fail and nothing is stored.
\<close>

definition associate :: "Deps \<Rightarrow> string \<Rightarrow> string \<Rightarrow> nat \<Rightarrow> ExportKind \<Rightarrow> Deps" where
  "associate deps name i priority type =
     (case search deps name of
        Absent \<Rightarrow> deps(name \<mapsto> \<lparr>dep_id = i, dep_priority = priority, dep_type = type\<rparr>)
      | Inherited \<Rightarrow> deps
      | Own dep \<Rightarrow>
          if dep_priority dep < priority \<or> (dep_type dep = Prop \<and> type \<noteq> Prop)
          then deps(name \<mapsto> \<lparr>dep_id = i, dep_priority = priority, dep_type = type\<rparr>)
          else deps)"

text \<open>\<open>names.forEach(name => this.associate({ name, id, priority, type }))\<close>.\<close>

fun associateAll :: "Deps \<Rightarrow> string list \<Rightarrow> string \<Rightarrow> nat \<Rightarrow> ExportKind \<Rightarrow> Deps" where
  "associateAll deps [] i priority type = deps"
| "associateAll deps (name # names) i priority type =
     associateAll (associate deps name i priority type) names i priority type"

text \<open>
  The priority chosen in the loop body of \<open>computeDeps\<close>. \<open>pkgRegex\<close> comes from
  \<open>./common\<close>, which is not among the sources: it is a parameter, the predicate
  \<open>pkgRegex.test\<close>. \<open>builtinLibs\<close> is \<open>repl._builtinLibs\<close>.
\<close>

definition priorityOf :: "(string \<Rightarrow> bool) \<Rightarrow> string list \<Rightarrow> string \<Rightarrow> nat" where
  "priorityOf pkgRegex builtinLibs i =
     (if i \<in> set builtinLibs \<or> i \<in> set objectPrototypeNames then 3
      else if pkgRegex i then 1
      else 2)"

fun computeDepsFrom :: "(string \<Rightarrow> bool) \<Rightarrow> string list \<Rightarrow> Deps \<Rightarrow> Registry \<Rightarrow> Deps" where
  "computeDepsFrom pkgRegex builtinLibs deps [] = deps"
| "computeDepsFrom pkgRegex builtinLibs deps ((i, entry) # rest) =
     (let priority = priorityOf pkgRegex builtinLibs i;
          d1 = associateAll deps (idents entry) i priority Ident;
          d2 = associateAll d1 (defaults entry) i priority Default;
          d3 = associateAll d2 (props entry) i priority Prop
      in computeDepsFrom pkgRegex builtinLibs d3 rest)"

text \<open>\<open>computeDeps\<close> starts from the empty \<open>this.deps\<close> of the constructor.\<close>

definition computeDeps :: "(string \<Rightarrow> bool) \<Rightarrow> string list \<Rightarrow> Registry \<Rightarrow> Deps" where
  "computeDeps pkgRegex builtinLibs registry =
     computeDepsFrom pkgRegex builtinLibs Map.empty registry"

text \<open>
  Modelled from the spec: \<open>pkgRegex\<close> of \<open>./common\<close> is missing from the sources. The
  spec calls an id a package id when it does not start with \<open>./\<close>, \<open>../\<close> or \<open>/\<close>;
  every other id is a file id. Used to run the model on concrete ids.
\<close>

definition pkgRegexSpec :: "string \<Rightarrow> bool" where
  "pkgRegexSpec i = (\<not> prefix ''./'' i \<and> \<not> prefix ''../'' i \<and> \<not> prefix ''/'' i)"

section \<open>Node's path module (POSIX flavour)\<close>

text \<open>
  \<open>path.basename\<close> and \<open>path.extname\<close> belong to the platform, not to the repository.
  They are modelled after their documented behaviour: trailing slashes are ignored, the
  last component is what follows the last remaining slash, and the extension runs from the
  last dot of that component to its end, unless the component has no dot, starts with its
  only dot, or is \<open>..\<close>.
\<close>

definition lastComponent :: "string \<Rightarrow> string" where
  "lastComponent p =
     rev (takeWhile (\<lambda>c. c \<noteq> CHR ''/'') (dropWhile (\<lambda>c. c = CHR ''/'') (rev p)))"

definition basename :: "string \<Rightarrow> string" where
  "basename p = lastComponent p"

definition extname :: "string \<Rightarrow> string" where
  "extname p =
     (let b = lastComponent p;
          suf = rev (takeWhile (\<lambda>c. c \<noteq> CHR ''.'') (rev b))
      in if CHR ''.'' \<notin> set b then []
         else if Suc (length suf) = length b then []
         else if b = ''..'' then []
         else CHR ''.'' # suf)"

text \<open>\<open>path.basename(p, ext)\<close>.\<close>

definition basenameExt :: "string \<Rightarrow> string \<Rightarrow> string" where
  "basenameExt p ext =
     (if ext \<noteq> [] \<and> length ext \<le> length p then
        (if ext = p then []
         else let b = lastComponent p
              in if suffix ext b \<and> ext \<noteq> b then take (length b - length ext) b else b)
      else basename p)"

section \<open>dep-registry.js: populateIdents\<close>

text \<open>\<open>identRegex = /^[$a-z_][0-9a-z_$]*$/i\<close>.\<close>

definition identStart :: "char \<Rightarrow> bool" where
  "identStart c = (c = CHR ''$'' \<or> isLower c \<or> isUpper c \<or> c = CHR ''_'')"

definition identPart :: "char \<Rightarrow> bool" where
  "identPart c = (isDigit c \<or> isLower c \<or> isUpper c \<or> c = CHR ''_'' \<or> c = CHR ''$'')"

fun identRegex :: "string \<Rightarrow> bool" where
  "identRegex [] = False"
| "identRegex (c # cs) = (identStart c \<and> list_all identPart cs)"

text \<open>
  \<open>s.split(/[\W_]+/g)\<close>: the pieces between maximal runs of characters that are not
  letters or digits; \<open>cur\<close> is the piece being read.
\<close>

definition nonWord :: "char \<Rightarrow> bool" where
  "nonWord c = (\<not> isAlnum c)"

function splitNonWord :: "string \<Rightarrow> string \<Rightarrow> string list" where
  "splitNonWord cur [] = [cur]"
| "splitNonWord cur (c # cs) =
     (if nonWord c then cur # splitNonWord [] (dropWhile nonWord cs)
      else splitNonWord (cur @ [c]) cs)"
  by pat_completeness auto
termination
  by (relation "measure (\<lambda>(cur, s). length s)")
     (auto simp: le_imp_less_Suc length_dropWhile_le)

text \<open>
  \<open>p[0].toUpperCase() + p.slice(1)\<close>. The source applies it to non-empty strings only
  (the pieces are filtered, and \<open>camelCase.length > 0\<close> is tested).
\<close>

fun capitalize :: "string \<Rightarrow> string" where
  "capitalize [] = []"
| "capitalize (c # cs) = toUpperCase c # cs"

text \<open>\<open>.map((p, i) => i === 0 ? p : p[0].toUpperCase() + p.slice(1))\<close>.\<close>

fun capitalizeRest :: "string list \<Rightarrow> string list" where
  "capitalizeRest [] = []"
| "capitalizeRest (p # ps) = p # map capitalize ps"

definition camelCaseOf :: "string \<Rightarrow> string" where
  "camelCaseOf base =
     concat (capitalizeRest (filter (\<lambda>p. p \<noteq> []) (splitNonWord [] base)))"

definition baseOf :: "(string \<Rightarrow> bool) \<Rightarrow> string \<Rightarrow> string" where
  "baseOf pkgRegex i =
     (if CHR ''/'' \<notin> set i then i
      else if pkgRegex i then basename i
      else basenameExt i (extname i))"

definition push :: "RegistryEntry \<Rightarrow> string \<Rightarrow> RegistryEntry" where
  "push entry name = entry\<lparr>idents := idents entry @ [name]\<rparr>"

definition populateIdents :: "(string \<Rightarrow> bool) \<Rightarrow> RegistryEntry \<Rightarrow> string \<Rightarrow> RegistryEntry" where
  "populateIdents pkgRegex entry i =
     (let base = baseOf pkgRegex i;
          e1 = (if identRegex base then push entry base else entry);
          camelCase = camelCaseOf base
      in if length camelCase > 0 then
           (let e2 = (if camelCase \<noteq> base then push e1 camelCase else e1);
                classCase = capitalize camelCase
            in push e2 classCase)
         else e1)"

text \<open>
  The text made of the tokens \<open>ts\<close> with the separators \<open>seps\<close> between them, used
  to say what \<open>camelCaseOf\<close> does to a text by its tokens: a token is a non-empty run
  of letters and digits, a separator a non-empty run of other characters.
\<close>

fun weave :: "string list \<Rightarrow> string list \<Rightarrow> string" where
  "weave [] seps = []"
| "weave [t] seps = t"
| "weave (t # t' # ts) [] = t @ weave (t' # ts) []"
| "weave (t # t' # ts) (s # seps) = t @ s @ weave (t' # ts) seps"

definition token :: "string \<Rightarrow> bool" where
  "token t = (t \<noteq> [] \<and> list_all isAlnum t)"

definition separator :: "string \<Rightarrow> bool" where
  "separator s = (s \<noteq> [] \<and> list_all nonWord s)"

section \<open>dep-registry.js: filling and registering entries\<close>

text \<open>
  \<open>vm.run(propsScript)\<close> is the probe of a package inside its VM: a parameter that gives
  \<open>Some (props, hasDefault)\<close>, or \<open>None\<close> when the probe throws.
\<close>

type_synonym Probe = "string \<Rightarrow> (string list \<times> bool) option"

definition populatePropsDefaults :: "Probe \<Rightarrow> RegistryEntry \<Rightarrow> string \<Rightarrow> RegistryEntry" where
  "populatePropsDefaults probe entry i =
     (case probe i of
        None \<Rightarrow> entry
      | Some (ps, hasDefault) \<Rightarrow>
          (let e1 = entry\<lparr>props := props entry @ ps\<rparr>
           in if hasDefault then e1\<lparr>defaults := defaults e1 @ idents e1, idents := []\<rparr>
              else e1))"

text \<open>
  The result of \<open>parser.run(code)\<close> (the parser is not among the sources): \<open>None\<close> is a
  falsy result, \<open>Some\<close> the object with \<open>hasExports\<close>, \<open>idents\<close>, \<open>defaults\<close>,
  \<open>props\<close>.
\<close>

record Exports =
  hasExports :: bool
  exIdents :: "string list"
  exDefaults :: "string list"
  exProps :: "string list"

text \<open>
  \<open>entry.idents.forEach(i => { if (entry.defaults.indexOf(i) === -1) entry.defaults.push(i) })\<close>.
\<close>

fun pushMissing :: "string list \<Rightarrow> string list \<Rightarrow> string list" where
  "pushMissing ds [] = ds"
| "pushMissing ds (i # is) = pushMissing (if i \<notin> set ds then ds @ [i] else ds) is"

definition populateFile ::
  "(string \<Rightarrow> bool) \<Rightarrow> RegistryEntry \<Rightarrow> string \<Rightarrow> Exports option \<Rightarrow> RegistryEntry" where
  "populateFile pkgRegex entry filePath exports =
     (case exports of
        None \<Rightarrow> entry
      | Some ex \<Rightarrow>
          if hasExports ex then
            (let e1 = entry\<lparr>defaults := defaults entry @ exDefaults ex\<rparr>;
                 e2 = e1\<lparr>props := props e1 @ exProps ex\<rparr>;
                 e3 = e2\<lparr>idents := idents e2 @ exIdents ex\<rparr>;
                 e4 = populateIdents pkgRegex e3 filePath
             in if length (defaults e4) > 0
                then e4\<lparr>defaults := pushMissing (defaults e4) (idents e4), idents := []\<rparr>
                else e4)
          else entry)"

text \<open>
  \<open>register(cache, id, version)\<close> returns the updated \<open>this.registry\<close> and the fresh
  entry, or \<open>None\<close> where the source returns \<open>null\<close> because the cached entry is reused.
\<close>

type_synonym Cache = "string \<rightharpoonup> RegistryEntry"

definition freshEntry :: "Version \<Rightarrow> RegistryEntry" where
  "freshEntry v = \<lparr>version = v, idents = [], defaults = [], props = []\<rparr>"

definition register ::
  "Cache \<Rightarrow> Registry \<Rightarrow> string \<Rightarrow> Version \<Rightarrow> Registry \<times> RegistryEntry option" where
  "register cache registry i v =
     (case cache i of
        None \<Rightarrow> (assign i (freshEntry v) registry, Some (freshEntry v))
      | Some c \<Rightarrow>
          if version c \<noteq> v then (assign i (freshEntry v) registry, Some (freshEntry v))
          else (assign i c registry, None))"

section \<open>dep-registry.js: populate\<close>

text \<open>
  What \<open>populate\<close> reads from its surroundings, as data: the package manifest found by
  \<open>findPkgMeta\<close> together with its directory (\<open>this.meta\<close> and \<open>this.dir\<close> are set
  together or not at all), and the project files that \<open>populateDir\<close> reaches, with
  their mtime and the result of \<open>parser.run\<close> on their text, in the order in which
  they are registered.
\<close>

record Manifest =
  devDependencies :: "(string \<times> string) list"
  dependencies :: "(string \<times> string) list"

record ProjectFile =
  filePath :: string
  mtime :: int
  analysis :: "Exports option"

record Project =
  dir :: string
  meta :: Manifest
  files :: "ProjectFile list"

text \<open>\<open>Object.assign({}, this.meta.devDependencies, this.meta.dependencies)\<close>.\<close>

definition objectAssign :: "(string \<times> 'v) list \<Rightarrow> (string \<times> 'v) list \<Rightarrow> (string \<times> 'v) list" where
  "objectAssign target source = foldl (\<lambda>acc (k, v). assign k v acc) target source"

definition mergedDependencies :: "Manifest \<Rightarrow> (string \<times> string) list" where
  "mergedDependencies m = objectAssign (objectAssign [] (devDependencies m)) (dependencies m)"

text \<open>
  \<open>path.join(this.dir, "node_modules", id)\<close>; the normalisation done by \<open>path.join\<close> is
  left out, the result is only handed to the probe.
\<close>

definition nodeModulesPath :: "string \<Rightarrow> string \<Rightarrow> string" where
  "nodeModulesPath d i = d @ ''/node_modules/'' @ i"

text \<open>
  The three loop bodies of \<open>populate\<close>. The source mutates the entry that
  \<open>register\<close> has just stored in \<open>this.registry\<close>; the model stores the filled entry
  under the same key.
\<close>

definition populateBuiltin ::
  "(string \<Rightarrow> bool) \<Rightarrow> Probe \<Rightarrow> string \<Rightarrow> Cache \<Rightarrow> Registry \<Rightarrow> string \<Rightarrow> Registry" where
  "populateBuiltin pkgRegex probe processVersion cache registry i =
     (case register cache registry i (VString processVersion) of
        (reg, None) \<Rightarrow> reg
      | (reg, Some entry) \<Rightarrow>
          assign i (populatePropsDefaults probe (populateIdents pkgRegex entry i) i) reg)"

definition populateDependency ::
  "(string \<Rightarrow> bool) \<Rightarrow> Probe \<Rightarrow> string \<Rightarrow> Cache \<Rightarrow> Registry \<Rightarrow> string \<times> string \<Rightarrow> Registry" where
  "populateDependency pkgRegex probe d cache registry dep =
     (case register cache registry (fst dep) (VString (snd dep)) of
        (reg, None) \<Rightarrow> reg
      | (reg, Some entry) \<Rightarrow>
          assign (fst dep)
            (populatePropsDefaults probe (populateIdents pkgRegex entry (fst dep))
               (nodeModulesPath d (fst dep)))
            reg)"

definition populateProjectFile ::
  "(string \<Rightarrow> bool) \<Rightarrow> Cache \<Rightarrow> Registry \<Rightarrow> ProjectFile \<Rightarrow> Registry" where
  "populateProjectFile pkgRegex cache registry f =
     (case register cache registry (filePath f) (VNumber (mtime f)) of
        (reg, None) \<Rightarrow> reg
      | (reg, Some entry) \<Rightarrow>
          assign (filePath f) (populateFile pkgRegex entry (filePath f) (analysis f)) reg)"

definition populate ::
  "(string \<Rightarrow> bool) \<Rightarrow> Probe \<Rightarrow> string list \<Rightarrow> string \<Rightarrow> Cache \<Rightarrow> Project option \<Rightarrow> Registry" where
  "populate pkgRegex probe builtinLibs processVersion cache project =
     (let r1 = foldl (populateBuiltin pkgRegex probe processVersion cache) [] builtinLibs
      in case project of
           None \<Rightarrow> r1
         | Some pr \<Rightarrow>
             (let r2 = foldl (populateDependency pkgRegex probe (dir pr) cache) r1
                         (mergedDependencies (meta pr))
              in foldl (populateProjectFile pkgRegex cache) r2 (files pr)))"

text \<open>
  The cache that \<open>populate\<close> reads. \<open>readCache\<close> gives the empty object when the
  cache file is missing or is not JSON, and otherwise the content of the file, which
  \<open>populate\<close> alone writes: \<open>JSON.stringify(this.registry)\<close> at the end of an
  earlier run, with whatever probe, builtin libraries, version and project that run had.
\<close>

inductive written :: "(string \<Rightarrow> bool) \<Rightarrow> Cache \<Rightarrow> bool" for pkgRegex where
  written_empty: "written pkgRegex Map.empty"
| written_populate:
    "written pkgRegex cache \<Longrightarrow>
     written pkgRegex (map_of (populate pkgRegex probe builtinLibs processVersion cache project))"

text \<open>
  The identifiers that \<open>populateIdents\<close> derives from an id, and the invariant of a
  registry entry at query time: \<open>idents\<close> and \<open>defaults\<close> are disjoint, and as soon
  as \<open>defaults\<close> is not empty \<open>idents\<close> is empty and the derived identifiers are
  among the defaults. A registry is settled relative to a cache when each of its entries
  has the invariant or is the cached entry.
\<close>

definition derivedIdents :: "(string \<Rightarrow> bool) \<Rightarrow> string \<Rightarrow> string list" where
  "derivedIdents pkgRegex i = idents (populateIdents pkgRegex (freshEntry (VNumber 0)) i)"

definition promotedFrom :: "string list \<Rightarrow> RegistryEntry \<Rightarrow> bool" where
  "promotedFrom derived e =
     (set (idents e) \<inter> set (defaults e) = {}
      \<and> (defaults e \<noteq> [] \<longrightarrow> idents e = [] \<and> set derived \<subseteq> set (defaults e)))"

definition settled :: "(string \<Rightarrow> bool) \<Rightarrow> Cache \<Rightarrow> Registry \<Rightarrow> bool" where
  "settled pkgRegex cache reg =
     (\<forall>(i, e) \<in> set reg. promotedFrom (derivedIdents pkgRegex i) e \<or> cache i = Some e)"

section \<open>lib/importer.js: composing statements\<close>

text \<open>
  Names without a suffix are the functions of \<open>lib/importer.js\<close>; the functions of
  \<open>importer.js\<close> that differ from them carry the suffix \<open>_root\<close>.
  \<open>composeRequireStatement\<close> and \<open>composeDestructure\<close> read the same in both files.
\<close>

datatype error = Error string | TypeError string

definition newline :: string where
  "newline = [CHR 0x0A]"

record Style =
  requireKeyword :: string
  kind :: string
  quote :: string
  semi :: string
  tab :: string
  trailingComma :: string

text \<open>
  An argument that a caller may leave out is an option; \<open>truthy\<close> is JavaScript's test
  of a string argument (\<open>undefined\<close> and the empty string are falsy). An array is truthy
  whenever it is given.
\<close>

definition truthy :: "string option \<Rightarrow> bool" where
  "truthy s = (case s of None \<Rightarrow> False | Some v \<Rightarrow> v \<noteq> [])"

text \<open>
  \<open>composeDestructure(style, props, multiline)\<close>; \<open>props.join\<close> on a missing
  \<open>props\<close> is a TypeError.
\<close>

definition destructureText :: "Style \<Rightarrow> string list \<Rightarrow> bool \<Rightarrow> string" where
  "destructureText style names multiline =
     (if multiline then
        (let propsText = tab style @ join ('','' @ newline @ tab style) names @ trailingComma style
         in ''{'' @ newline @ propsText @ newline @ ''}'')
      else ''{ '' @ join '', '' names @ '' }'')"

definition composeDestructure :: "Style \<Rightarrow> string list option \<Rightarrow> bool \<Rightarrow> error + string" where
  "composeDestructure style ps multiline =
     (case ps of
        None \<Rightarrow> Inl (TypeError ''props is undefined'')
      | Some names \<Rightarrow> Inr (destructureText style names multiline))"

text \<open>The template strings of \<open>composeRequireStatement\<close> and \<open>composeImportStatement\<close>.\<close>

definition requireText :: "Style \<Rightarrow> string \<Rightarrow> string" where
  "requireText style i = ''require('' @ quote style @ i @ quote style @ '')''"

definition requireIdentText :: "Style \<Rightarrow> string \<Rightarrow> string \<Rightarrow> string" where
  "requireIdentText style i ident = kind style @ '' '' @ ident @ '' = '' @ requireText style i @ semi style"

definition requireDefaultText :: "Style \<Rightarrow> string \<Rightarrow> string \<Rightarrow> string" where
  "requireDefaultText style i def =
     kind style @ '' '' @ def @ '' = '' @ requireText style i @ ''.default'' @ semi style"

definition requirePropsText :: "Style \<Rightarrow> string \<Rightarrow> string \<Rightarrow> string" where
  "requirePropsText style i destructure =
     kind style @ '' '' @ destructure @ '' = '' @ requireText style i @ semi style"

definition importText :: "Style \<Rightarrow> string \<Rightarrow> string list \<Rightarrow> string" where
  "importText style i parts =
     ''import '' @ join '', '' parts @ '' from '' @ quote style @ i @ quote style @ semi style"

function composeRequireStatement ::
  "Style \<Rightarrow> string \<Rightarrow> string option \<Rightarrow> string option \<Rightarrow> string list option \<Rightarrow> bool
   \<Rightarrow> error + string" where
  "composeRequireStatement style i ident def ps multiline =
     (if (truthy ident \<and> truthy def) \<or> (truthy ident \<and> ps \<noteq> None) \<or> (truthy def \<and> ps \<noteq> None)
      then Inl (Error ''only one of ident, default, and props must be specified'')
      else
        (if truthy ident then Inr (requireIdentText style i (the ident))
         else if truthy def then Inr (requireDefaultText style i (the def))
         else
           (case composeDestructure style ps multiline of
              Inl e \<Rightarrow> Inl e
            | Inr destructure \<Rightarrow>
                (let statement = requirePropsText style i destructure
                 in if \<not> multiline \<and> length statement > 80
                    then composeRequireStatement style i None None ps True
                    else Inr statement))))"
  by pat_completeness auto
termination
  by (relation "measure (\<lambda>(style, i, ident, def, ps, multiline). if multiline then 0 else 1)") auto

declare composeRequireStatement.simps [simp del]

text \<open>The \<open>parts\<close> array of \<open>composeImportStatement\<close>, before \<open>parts.join(", ")\<close>.\<close>

definition importParts ::
  "Style \<Rightarrow> string option \<Rightarrow> string option \<Rightarrow> string list option \<Rightarrow> bool \<Rightarrow> error + string list" where
  "importParts style ident def ps multiline =
     (let p1 = (if truthy def then [the def] else []);
          p2 = (if truthy ident then p1 @ [''* as '' @ the ident] else p1)
      in case ps of
           None \<Rightarrow> Inr p2
         | Some names \<Rightarrow>
             if length names > 0 then
               (case composeDestructure style ps multiline of
                  Inl e \<Rightarrow> Inl e
                | Inr destructure \<Rightarrow> Inr (p2 @ [destructure]))
             else Inr p2)"

function composeImportStatement ::
  "Style \<Rightarrow> string \<Rightarrow> string option \<Rightarrow> string option \<Rightarrow> string list option \<Rightarrow> bool
   \<Rightarrow> error + string" where
  "composeImportStatement style i ident def ps multiline =
     (if truthy ident \<and> (case ps of None \<Rightarrow> False | Some names \<Rightarrow> length names > 0)
      then Inl (Error ''ident and props cannot both be specified'')
      else
        (case importParts style ident def ps multiline of
           Inl e \<Rightarrow> Inl e
         | Inr parts \<Rightarrow>
             (let statement = importText style i parts
              in if ps \<noteq> None \<and> \<not> multiline \<and> length statement > 80
                 then composeImportStatement style i ident def ps True
                 else Inr statement)))"
  by pat_completeness auto
termination
  by (relation "measure (\<lambda>(style, i, ident, def, ps, multiline). if multiline then 0 else 1)") auto

declare composeImportStatement.simps [simp del]

text \<open>
  \<open>xs.map(f)\<close> for an \<open>f\<close> that may throw: the first exception ends the evaluation.
\<close>

fun mapE :: "('a \<Rightarrow> error + 'b) \<Rightarrow> 'a list \<Rightarrow> error + 'b list" where
  "mapE f [] = Inr []"
| "mapE f (x # xs) =
     (case f x of
        Inl e \<Rightarrow> Inl e
      | Inr y \<Rightarrow> (case mapE f xs of Inl e \<Rightarrow> Inl e | Inr ys \<Rightarrow> Inr (y # ys)))"

text \<open>One value of \<open>libsToAdd\<close>: \<open>{ idents, defaults, props }\<close>.\<close>

record Lib =
  libIdents :: "string list"
  libDefaults :: "string list"
  libProps :: "string list"

text \<open>\<open>xs[i]\<close>, which is \<open>undefined\<close> out of range.\<close>

definition at :: "'a list \<Rightarrow> nat \<Rightarrow> 'a option" where
  "at xs n = (if n < length xs then Some (xs ! n) else None)"

text \<open>
  \<open>composeStatements(style, lib, id)\<close>. \<open>Array.prototype.sort()\<close> without a comparator
  orders strings by their code units: \<open>sort\<close> on the lexicographic order of \<open>string\<close>.
\<close>

definition composeStatements :: "Style \<Rightarrow> Lib \<Rightarrow> string \<Rightarrow> error + string list" where
  "composeStatements style lib i =
     (if length (libIdents lib) = 0 \<and> length (libDefaults lib) = 0 \<and> length (libProps lib) = 0
      then Inr []
      else
        (let ids = sort (libIdents lib);
             defs = sort (libDefaults lib);
             ps = sort (libProps lib)
         in if requireKeyword style = ''require'' then
              (case mapE (\<lambda>ident. composeRequireStatement style i (Some ident) None None False) ids of
                 Inl e \<Rightarrow> Inl e
               | Inr s1 \<Rightarrow>
                   (case mapE (\<lambda>def. composeRequireStatement style i None (Some def) None False) defs of
                      Inl e \<Rightarrow> Inl e
                    | Inr s2 \<Rightarrow>
                        if length ps > 0 then
                          (case composeRequireStatement style i None None (Some ps) False of
                             Inl e \<Rightarrow> Inl e
                           | Inr s3 \<Rightarrow> Inr (s1 @ s2 @ [s3]))
                        else Inr (s1 @ s2)))
            else
              (case (if length ps > 0
                     then (case composeImportStatement style i None (at defs 0) (Some ps) False of
                             Inl e \<Rightarrow> Inl e
                           | Inr s0 \<Rightarrow> Inr ([s0], drop 1 defs))
                     else Inr ([], defs)) of
                 Inl e \<Rightarrow> Inl e
               | Inr (s0, leftDefaults) \<Rightarrow>
                   (case mapE (\<lambda>(n, def). composeImportStatement style i (at ids n) (Some def) None False)
                           (enumerate 0 leftDefaults) of
                      Inl e \<Rightarrow> Inl e
                    | Inr s1 \<Rightarrow>
                        (case mapE (\<lambda>ident. composeImportStatement style i (Some ident) None None False)
                                (drop (length leftDefaults) ids) of
                           Inl e \<Rightarrow> Inl e
                         | Inr s2 \<Rightarrow> Inr (s0 @ s1 @ s2))))))"

section \<open>lib/importer.js: composeRequires\<close>

text \<open>
  \<open>Array.prototype.sort(compare)\<close>, as an insertion sort: an element goes before the
  first element that \<open>compare\<close> does not put before it.
\<close>

fun insertBy :: "('a \<Rightarrow> 'a \<Rightarrow> int) \<Rightarrow> 'a \<Rightarrow> 'a list \<Rightarrow> 'a list" where
  "insertBy compare x [] = [x]"
| "insertBy compare x (y # ys) =
     (if compare x y \<le> 0 then x # y # ys else y # insertBy compare x ys)"

definition sortBy :: "('a \<Rightarrow> 'a \<Rightarrow> int) \<Rightarrow> 'a list \<Rightarrow> 'a list" where
  "sortBy compare xs = foldr (insertBy compare) xs []"

definition compareByBasename :: "string \<Rightarrow> string \<Rightarrow> int" where
  "compareByBasename id1 id2 =
     (let base1 = basename id1; base2 = basename id2
      in if base1 \<noteq> base2 then (if base1 < base2 then - 1 else 1)
         else (if id1 < id2 then - 1 else 1))"


text \<open>\<open>path.isAbsolute\<close> (POSIX) and \<open>s.replace(/\\/g, "/")\<close>.\<close>

definition isAbsolute :: "string \<Rightarrow> bool" where
  "isAbsolute p = (case p of [] \<Rightarrow> False | c # cs \<Rightarrow> c = CHR ''/'')"

definition replaceBackslashes :: "string \<Rightarrow> string" where
  "replaceBackslashes p = map (\<lambda>c. if c = CHR 0x5C then CHR ''/'' else c) p"

text \<open>\<open>delete libs[id]\<close>.\<close>

definition delete :: "string \<Rightarrow> (string \<times> 'v) list \<Rightarrow> (string \<times> 'v) list" where
  "delete k kvs = filter (\<lambda>kv. fst kv \<noteq> k) kvs"

text \<open>
  The body of the first loop of \<open>composeRequires\<close>. \<open>relative\<close> is \<open>path.relative\<close>,
  a parameter. Every id of the loop is a key of \<open>libs\<close> when its turn comes.
\<close>

definition relativeId :: "(string \<Rightarrow> string \<Rightarrow> string) \<Rightarrow> string \<Rightarrow> string \<Rightarrow> string" where
  "relativeId relative d i =
     (let newID = replaceBackslashes (relative d i)
      in if at newID 0 \<noteq> Some (CHR ''.'') then ''./'' @ newID else newID)"

definition relativize ::
  "(string \<Rightarrow> string \<Rightarrow> string) \<Rightarrow> string \<Rightarrow> (string \<times> Lib) list \<Rightarrow> string \<Rightarrow> (string \<times> Lib) list" where
  "relativize relative d libs i =
     (if isAbsolute i then
        (case map_of libs i of
           None \<Rightarrow> libs
         | Some lib \<Rightarrow> delete i (assign (relativeId relative d i) lib libs))
      else libs)"

text \<open>\<open>ids.forEach(id => statements.push(...composeStatements(style, libs[id], id)))\<close>.\<close>

definition statementsOf :: "Style \<Rightarrow> (string \<times> Lib) list \<Rightarrow> string list \<Rightarrow> error + string list" where
  "statementsOf st libs ids =
     (case mapE (\<lambda>i. case map_of libs i of
                        None \<Rightarrow> Inl (TypeError ''lib is undefined'')
                      | Some lib \<Rightarrow> composeStatements st lib i) ids of
        Inl e \<Rightarrow> Inl e
      | Inr ss \<Rightarrow> Inr (concat ss))"

text \<open>
  The ids of the two groups, sorted, after the ids have been made relative.
  \<open>fileRegex\<close> comes from \<open>./common\<close> and is a parameter.
\<close>

definition relativeLibs ::
  "(string \<Rightarrow> string \<Rightarrow> string) \<Rightarrow> string \<Rightarrow> (string \<times> Lib) list \<Rightarrow> (string \<times> Lib) list" where
  "relativeLibs relative d libs = foldl (relativize relative d) libs (map fst libs)"

definition externalIDs :: "(string \<Rightarrow> bool) \<Rightarrow> (string \<times> Lib) list \<Rightarrow> string list" where
  "externalIDs fileRegex libs =
     sortBy compareByBasename (filter (\<lambda>i. \<not> fileRegex i) (map fst libs))"

definition localIDs :: "(string \<Rightarrow> bool) \<Rightarrow> (string \<times> Lib) list \<Rightarrow> string list" where
  "localIDs fileRegex libs =
     sortBy compareByBasename (filter (\<lambda>i. fileRegex i) (map fst libs))"

definition composeRequires ::
  "(string \<Rightarrow> string \<Rightarrow> string) \<Rightarrow> (string \<Rightarrow> bool) \<Rightarrow> Style \<Rightarrow> string \<Rightarrow> (string \<times> Lib) list
   \<Rightarrow> error + string" where
  "composeRequires relative fileRegex st d libs0 =
     (let libs = relativeLibs relative d libs0
      in case statementsOf st libs (externalIDs fileRegex libs) of
           Inl e \<Rightarrow> Inl e
         | Inr externalStatements \<Rightarrow>
             (case statementsOf st libs (localIDs fileRegex libs) of
                Inl e \<Rightarrow> Inl e
              | Inr localStatements \<Rightarrow>
                  (let statements =
                         (if length externalStatements > 0 \<and> length localStatements > 0
                          then externalStatements @ [[]]
                          else externalStatements)
                   in Inr (join newline (statements @ localStatements)))))"


text \<open>
  Modelled from the spec: \<open>fileRegex\<close> of \<open>./common\<close> is missing from the sources. The
  spec calls a file id an id that starts with \<open>./\<close>, \<open>../\<close> or \<open>/\<close>. Used to run the
  model on concrete ids.
\<close>

definition fileRegexSpec :: "string \<Rightarrow> bool" where
  "fileRegexSpec i = (prefix ''./'' i \<or> prefix ''../'' i \<or> prefix ''/'' i)"

text \<open>
  An instance of the parameter \<open>relative\<close>: what \<open>path.relative(dir, id)\<close> gives for a
  normalised \<open>id\<close> below a normalised \<open>dir\<close> that does not end with a slash.
\<close>

definition relativeBelow :: "string \<Rightarrow> string \<Rightarrow> string" where
  "relativeBelow d i = drop (Suc (length d)) i"


text \<open>Two style descriptors on which the composer is run below.\<close>

definition requireStyle :: Style where
  "requireStyle =
     \<lparr>requireKeyword = ''require'', kind = ''const'', quote = [CHR 0x22], semi = '';'',
      tab = ''  '', trailingComma = '',''\<rparr>"


section \<open>lib/importer.js: resolveIdents\<close>

text \<open>
  The context that \<open>walker.run\<close> hands to \<open>rewriteCode\<close>, as data. A node is its
  \<open>loc\<close>: lines count from 1, columns from 0. \<open>useStrict\<close> is the result of
  \<open>getUseStrict()\<close> and \<open>endsLine\<close> the method of that name, a parameter; a reference
  of the global scope is reduced to what \<open>findMissingIdents\<close> reads of it, and
  \<open>declared\<close> lists the names for which \<open>globalScope.set.get\<close> finds a variable.
\<close>

record Loc =
  line :: nat
  column :: nat

record Node =
  locStart :: Loc
  locEnd :: Loc

record Req =
  node :: "Node option"
  depID :: string
  reqIdents :: "string list option"
  reqDefaults :: "string list option"
  reqProps :: "string list option"

record Reference =
  identifierName :: string
  isTypeOf :: bool
  writeExpr :: bool

record GlobalScope =
  through :: "Reference list"
  declared :: "string list"

record Context =
  reqs :: "Req list"
  style :: Style
  textLines :: "string list"
  useStrict :: "Node option"
  endsLine :: "Node \<Rightarrow> bool"
  globalScope :: GlobalScope

text \<open>
  Modelled from the spec: \<open>getLineText(n)\<close> of the source view (\<open>lib/walker.js\<close>, not
  among the sources) is the text of line \<open>n\<close>, lines counted from 1. \<open>rewriteCode\<close>
  itself stores the edited text of line \<open>n\<close> at \<open>textLines[n - 1]\<close>, so line \<open>n\<close> is
  \<open>textLines[n - 1]\<close>, and \<open>undefined\<close> outside the array.
\<close>

definition getLineText :: "string list \<Rightarrow> nat \<Rightarrow> string option" where
  "getLineText ts n = (if 1 \<le> n \<and> n \<le> length ts then Some (ts ! (n - 1)) else None)"

text \<open>An \<open>undefined\<close> turned into a string, by \<open>+\<close> or by \<open>RegExp.prototype.test\<close>.\<close>

definition toString :: "string option \<Rightarrow> string" where
  "toString t = (case t of None \<Rightarrow> ''undefined'' | Some v \<Rightarrow> v)"

text \<open>\<open>Array.from(new Set(xs))\<close>: the first occurrence of each element, in order.\<close>

definition unique :: "'a list \<Rightarrow> 'a list" where
  "unique xs = rev (remdups (rev xs))"

definition findMissingIdents :: "Context \<Rightarrow> string list" where
  "findMissingIdents ctx =
     unique
       (filter (\<lambda>n. n \<notin> set (declared (globalScope ctx)))
          (map identifierName
             (filter (\<lambda>r. \<not> isTypeOf r \<and> \<not> writeExpr r) (through (globalScope ctx)))))"

definition emptyLib :: Lib where
  "emptyLib = \<lparr>libIdents = [], libDefaults = [], libProps = []\<rparr>"

text \<open>\<open>libs[k]\<close> changed in place by \<open>f\<close>: the pushes on the arrays of one lib.\<close>

definition change :: "string \<Rightarrow> ('v \<Rightarrow> 'v) \<Rightarrow> (string \<times> 'v) list \<Rightarrow> (string \<times> 'v) list" where
  "change k f kvs = map (\<lambda>kv. if fst kv = k then (fst kv, f (snd kv)) else kv) kvs"

text \<open>The \<open>switch (type)\<close> of \<open>resolveIdents\<close>; the three kinds are all there is.\<close>

definition addName :: "ExportKind \<Rightarrow> string \<Rightarrow> Lib \<Rightarrow> Lib" where
  "addName type ident lib =
     (case type of
        Ident \<Rightarrow> lib\<lparr>libIdents := libIdents lib @ [ident]\<rparr>
      | Default \<Rightarrow> lib\<lparr>libDefaults := libDefaults lib @ [ident]\<rparr>
      | Prop \<Rightarrow> lib\<lparr>libProps := libProps lib @ [ident]\<rparr>)"

definition orEmpty :: "'a list option \<Rightarrow> 'a list" where
  "orEmpty xs = (case xs of None \<Rightarrow> [] | Some v \<Rightarrow> v)"

definition addReq :: "Req \<Rightarrow> Lib \<Rightarrow> Lib" where
  "addReq r lib =
     \<lparr>libIdents = libIdents lib @ orEmpty (reqIdents r),
      libDefaults = libDefaults lib @ orEmpty (reqDefaults r),
      libProps = libProps lib @ orEmpty (reqProps r)\<rparr>"

text \<open>\<open>linesToRemove\<close> is a \<open>Set\<close> of line numbers: a list without repetition.\<close>

definition addLine :: "nat \<Rightarrow> nat list \<Rightarrow> nat list" where
  "addLine n ls = (if n \<in> set ls then ls else ls @ [n])"

definition addLines :: "nat list \<Rightarrow> nat list \<Rightarrow> nat list" where
  "addLines ns ls = foldl (\<lambda>acc n. addLine n acc) ls ns"

text \<open>\<open>whiteRegex\<close> comes from \<open>./common\<close> and is a parameter.\<close>

definition isBlank :: "(string \<Rightarrow> bool) \<Rightarrow> string list \<Rightarrow> nat \<Rightarrow> bool" where
  "isBlank whiteRegex ts n = whiteRegex (toString (getLineText ts n))"

definition hasNoImports :: "(string \<times> Lib) list \<Rightarrow> bool" where
  "hasNoImports libs =
     list_all (\<lambda>kv. length (libIdents (snd kv)) = 0 \<and> length (libDefaults (snd kv)) = 0
                     \<and> length (libProps (snd kv)) = 0) libs"

text \<open>The body of the \<open>forEach\<close> of \<open>removeExtraLines\<close>, on the pair of the set and \<open>prevLine\<close>.\<close>

definition removeBetween ::
  "(string \<Rightarrow> bool) \<Rightarrow> string list \<Rightarrow> nat list \<times> nat \<Rightarrow> nat \<Rightarrow> nat list \<times> nat" where
  "removeBetween whiteRegex ts acc n =
     (let prevLine = snd acc;
          between = [Suc prevLine ..< n];
          allBlank = list_all (isBlank whiteRegex ts) between
      in (if allBlank then addLines between (fst acc) else fst acc, n))"

definition removeExtraLines ::
  "(string \<Rightarrow> bool) \<Rightarrow> string list \<Rightarrow> (string \<times> Lib) list \<Rightarrow> nat list \<Rightarrow> nat list" where
  "removeExtraLines whiteRegex ts libs linesToRemove =
     (case sort linesToRemove of
        [] \<Rightarrow> linesToRemove
      | first # rest \<Rightarrow>
          (let acc = foldl (removeBetween whiteRegex ts) (linesToRemove, first) rest;
               prevLine = snd acc
           in if hasNoImports libs \<and> isBlank whiteRegex ts (Suc prevLine)
              then addLine (Suc prevLine) (fst acc)
              else fst acc))"

definition linesOf :: "Node \<Rightarrow> nat list" where
  "linesOf n = [line (locStart n) ..< Suc (line (locEnd n))]"

text \<open>
  Assigning to the key \<open>__proto__\<close> of \<open>libsToAdd\<close> sets the prototype of the object
  and makes no own property: the pushes reach that lib, and \<open>Object.keys\<close> never lists
  it.
\<close>

definition ownLibs :: "(string \<times> Lib) list \<Rightarrow> (string \<times> Lib) list" where
  "ownLibs libs = filter (\<lambda>kv. fst kv \<noteq> ''__proto__'') libs"

text \<open>The deps that \<open>search\<close> finds as own properties, in order.\<close>

definition ownDeps :: "Deps \<Rightarrow> string list \<Rightarrow> DepInfo list" where
  "ownDeps deps names =
     concat (map (\<lambda>i. case search deps i of Own dep \<Rightarrow> [dep] | Inherited \<Rightarrow> [] | Absent \<Rightarrow> []) names)"

text \<open>
  \<open>resolveIdents(context, depRegistry)\<close>. An identifier that \<open>search\<close> finds as an
  inherited member is fixable, since the member is truthy, and has the \<open>type\<close>
  \<open>undefined\<close>: the \<open>switch\<close> throws on it.
\<close>

definition resolveIdents ::
  "(string \<Rightarrow> bool) \<Rightarrow> Context \<Rightarrow> Deps \<Rightarrow> error + ((string \<times> Lib) list \<times> nat list)" where
  "resolveIdents whiteRegex ctx deps =
     (let missingIdents = findMissingIdents ctx;
          fixableIdents = filter (\<lambda>i. search deps i \<noteq> Absent) missingIdents
      in if list_ex (\<lambda>i. search deps i = Inherited) fixableIdents
         then Inl (Error ''unexpected type undefined'')
         else
           (let ds = ownDeps deps fixableIdents;
                depIDs = map depID (reqs ctx) @ map dep_id ds;
                libs0 = foldl (\<lambda>libs i. assign i emptyLib libs) [] depIDs;
                libs1 = foldl (\<lambda>libs (ident, dep). change (dep_id dep) (addName (dep_type dep) ident) libs)
                          libs0 (zip fixableIdents ds);
                libsToAdd = ownLibs (foldl (\<lambda>libs r. change (depID r) (addReq r) libs) libs1 (reqs ctx));
                nodesToRemove = concat (map (\<lambda>r. case node r of None \<Rightarrow> [] | Some n \<Rightarrow> [n]) (reqs ctx));
                linesToRemove = addLines (concat (map linesOf nodesToRemove)) []
            in Inr (libsToAdd, removeExtraLines whiteRegex (textLines ctx) libsToAdd linesToRemove)))"

section \<open>lib/importer.js: rewriteCode\<close>

text \<open>
  The end of \<open>rewriteCode\<close>, the same in both files: a line break is added when the
  text does not end with one, and one line break is taken away when it ends with two.
\<close>

definition endWithNewline :: "string \<Rightarrow> string" where
  "endWithNewline newCode =
     (if drop (length newCode - 1) newCode \<noteq> newline then newCode @ newline
      else if drop (length newCode - 2) newCode = newline @ newline then butlast newCode
      else newCode)"

text \<open>
  Where the block goes: the text of the block as it will be emitted, the target line
  (\<open>None\<close> for \<open>null\<close>) and the text lines, of which the directive's line may have
  been edited.
\<close>

definition spliceInto :: "string \<Rightarrow> nat \<Rightarrow> string \<Rightarrow> string" where
  "spliceInto endLineText col requiresText =
     take col endLineText @ newline @ newline @ requiresText @ newline @ newline
       @ drop (Suc col) endLineText"

definition placeRequires :: "Context \<Rightarrow> string \<Rightarrow> error + (string \<times> nat option \<times> string list)" where
  "placeRequires ctx requiresText =
     (case reqs ctx of
        r # rs \<Rightarrow>
          (case node r of
             None \<Rightarrow> Inl (TypeError ''node is undefined'')
           | Some n \<Rightarrow> Inr (requiresText, Some (line (locStart n)), textLines ctx))
      | [] \<Rightarrow>
          if length requiresText > 0 then
            (case useStrict ctx of
               Some directive \<Rightarrow>
                 if endsLine ctx directive then
                   Inr (newline @ requiresText @ newline, Some (line (locEnd directive)), textLines ctx)
                 else
                   (let n = line (locEnd directive)
                    in case getLineText (textLines ctx) n of
                         None \<Rightarrow> Inl (TypeError ''endLineText is undefined'')
                       | Some endLineText \<Rightarrow>
                           Inr (requiresText, None,
                                (textLines ctx)
                                  [n - 1 := spliceInto endLineText (column (locEnd directive)) requiresText]))
             | None \<Rightarrow> Inr (requiresText @ newline, Some 0, textLines ctx))
          else Inr (requiresText, None, textLines ctx))"

text \<open>The loop over the lines \<open>0 .. textLines.length\<close>; line 0 is always removed.\<close>

definition emitLine :: "string list \<Rightarrow> nat list \<Rightarrow> nat option \<Rightarrow> string \<Rightarrow> nat \<Rightarrow> string" where
  "emitLine ts linesToRemove targetLine requiresText n =
     (if n \<notin> set linesToRemove then toString (getLineText ts n) @ newline else [])
     @ (if Some n = targetLine \<and> length requiresText > 0 then requiresText @ newline else [])"

definition emitLines :: "string list \<Rightarrow> nat list \<Rightarrow> nat option \<Rightarrow> string \<Rightarrow> string" where
  "emitLines ts linesToRemove targetLine requiresText =
     concat (map (emitLine ts (addLine 0 linesToRemove) targetLine requiresText)
               [0 ..< Suc (length ts)])"

text \<open>\<open>newCode\<close> before its end is normalised, and \<open>rewriteCode\<close>.\<close>

definition assemble ::
  "(string \<Rightarrow> string \<Rightarrow> string) \<Rightarrow> (string \<Rightarrow> bool) \<Rightarrow> (string \<Rightarrow> bool) \<Rightarrow> Context \<Rightarrow> Deps \<Rightarrow> string
   \<Rightarrow> error + string" where
  "assemble relative fileRegex whiteRegex ctx deps d =
     (case resolveIdents whiteRegex ctx deps of
        Inl e \<Rightarrow> Inl e
      | Inr (libsToAdd, linesToRemove) \<Rightarrow>
          (case composeRequires relative fileRegex (style ctx) d libsToAdd of
             Inl e \<Rightarrow> Inl e
           | Inr requiresText \<Rightarrow>
               (case placeRequires ctx requiresText of
                  Inl e \<Rightarrow> Inl e
                | Inr (requiresText', targetLine, ts) \<Rightarrow>
                    Inr (emitLines ts linesToRemove targetLine requiresText'))))"

definition rewriteCode ::
  "(string \<Rightarrow> string \<Rightarrow> string) \<Rightarrow> (string \<Rightarrow> bool) \<Rightarrow> (string \<Rightarrow> bool) \<Rightarrow> Context \<Rightarrow> Deps \<Rightarrow> string
   \<Rightarrow> error + string" where
  "rewriteCode relative fileRegex whiteRegex ctx deps d =
     (case assemble relative fileRegex whiteRegex ctx deps d of
        Inl e \<Rightarrow> Inl e
      | Inr newCode \<Rightarrow> Inr (endWithNewline newCode))"

text \<open>
  Modelled from the spec: \<open>whiteRegex\<close> of \<open>./common\<close> is missing from the sources; the
  spec speaks of whitespace-only lines. Used to run the model on concrete texts.
\<close>

definition whiteRegexSpec :: "string \<Rightarrow> bool" where
  "whiteRegexSpec t = list_all (\<lambda>c. c = CHR '' '' \<or> c = CHR 0x09 \<or> c = CHR 0x0A \<or> c = CHR 0x0D) t"

section \<open>importer.js: the functions that differ from lib/importer.js\<close>

text \<open>\<open>composeImportStatement\<close> of \<open>importer.js\<close> has no check of its arguments.\<close>

function composeImportStatement_root ::
  "Style \<Rightarrow> string \<Rightarrow> string option \<Rightarrow> string option \<Rightarrow> string list option \<Rightarrow> bool
   \<Rightarrow> error + string" where
  "composeImportStatement_root st i ident def ps multiline =
     (case importParts st ident def ps multiline of
        Inl e \<Rightarrow> Inl e
      | Inr parts \<Rightarrow>
          (let statement = importText st i parts
           in if ps \<noteq> None \<and> \<not> multiline \<and> length statement > 80
              then composeImportStatement_root st i ident def ps True
              else Inr statement))"
  by pat_completeness auto
termination
  by (relation "measure (\<lambda>(st, i, ident, def, ps, multiline). if multiline then 0 else 1)") auto

declare composeImportStatement_root.simps [simp del]

text \<open>The body of \<open>ids.forEach\<close> in \<open>composeRequires\<close> of \<open>importer.js\<close>.\<close>

definition composeStatements_root :: "Style \<Rightarrow> Lib \<Rightarrow> string \<Rightarrow> error + string list" where
  "composeStatements_root st lib i =
     (if length (libIdents lib) = 0 \<and> length (libDefaults lib) = 0 \<and> length (libProps lib) = 0
      then Inr []
      else
        (let ids = sort (libIdents lib);
             defs = sort (libDefaults lib);
             ps = sort (libProps lib)
         in if requireKeyword st = ''require'' then
              (case mapE (\<lambda>ident. composeRequireStatement st i (Some ident) None None False) ids of
                 Inl e \<Rightarrow> Inl e
               | Inr s1 \<Rightarrow>
                   (case mapE (\<lambda>def. composeRequireStatement st i None (Some def) None False) defs of
                      Inl e \<Rightarrow> Inl e
                    | Inr s2 \<Rightarrow>
                        if length ps > 0 then
                          (case composeRequireStatement st i None None (Some ps) False of
                             Inl e \<Rightarrow> Inl e
                           | Inr s3 \<Rightarrow> Inr (s1 @ s2 @ [s3]))
                        else Inr (s1 @ s2)))
            else
              (case composeImportStatement_root st i (at ids 0) (at defs 0) (Some ps) False of
                 Inl e \<Rightarrow> Inl e
               | Inr s0 \<Rightarrow>
                   (case mapE (\<lambda>(n, ident). composeImportStatement_root st i (Some ident)
                                              (at defs (Suc n)) None False)
                           (enumerate 0 (drop 1 ids)) of
                      Inl e \<Rightarrow> Inl e
                    | Inr s1 \<Rightarrow>
                        (case mapE (\<lambda>def. composeImportStatement_root st i None (Some def) None False)
                                (drop (max (length ids) 1) defs) of
                           Inl e \<Rightarrow> Inl e
                         | Inr s2 \<Rightarrow> Inr (s0 # s1 @ s2))))))"

text \<open>
  \<open>id.replace(nonSortableRegex, "")\<close> with \<open>nonSortableRegex = /^[@\.\/]+/\<close>. The
  comparator of \<open>importer.js\<close> never answers 0: for two ids with the same text after
  that replacement the order that \<open>sort\<close> leaves depends on the engine, and the model
  has the order of the insertion sort above. The keys of \<open>libsToAdd\<close> are taken in
  insertion order; keys that are array indices, which JavaScript lists first, are outside
  the model.
\<close>

definition sortable :: "string \<Rightarrow> string" where
  "sortable i = dropWhile (\<lambda>c. c = CHR ''@'' \<or> c = CHR ''.'' \<or> c = CHR ''/'') i"

definition compareSortable :: "string \<Rightarrow> string \<Rightarrow> int" where
  "compareSortable id1 id2 = (if sortable id1 < sortable id2 then - 1 else 1)"

definition relativize_root ::
  "(string \<Rightarrow> bool) \<Rightarrow> (string \<Rightarrow> string \<Rightarrow> string) \<Rightarrow> string \<Rightarrow> (string \<times> Lib) list \<Rightarrow> string
   \<Rightarrow> (string \<times> Lib) list" where
  "relativize_root pkgRegex relative d libs i =
     (if \<not> pkgRegex i then
        (case map_of libs i of
           None \<Rightarrow> libs
         | Some lib \<Rightarrow>
             (let newID = relative d i;
                  newID' = (if at newID 0 \<noteq> Some (CHR ''.'') \<and> at newID 0 \<noteq> Some (CHR ''/'')
                            then ''./'' @ newID else newID)
              in delete i (assign newID' lib libs)))
      else libs)"

text \<open>\<open>composeRequires(libs, dir)\<close>; \<open>st\<close> is the result of \<open>findStyle.retrieve()\<close>.\<close>

definition composeRequires_root ::
  "(string \<Rightarrow> bool) \<Rightarrow> (string \<Rightarrow> string \<Rightarrow> string) \<Rightarrow> Style \<Rightarrow> (string \<times> Lib) list \<Rightarrow> string
   \<Rightarrow> error + string" where
  "composeRequires_root pkgRegex relative st libs0 d =
     (let libs = foldl (relativize_root pkgRegex relative d) libs0 (map fst libs0);
          ids = sortBy compareSortable (map fst libs)
      in case mapE (\<lambda>i. case map_of libs i of
                            None \<Rightarrow> Inl (TypeError ''lib is undefined'')
                          | Some lib \<Rightarrow> composeStatements_root st lib i) ids of
           Inl e \<Rightarrow> Inl e
         | Inr ss \<Rightarrow> Inr (join newline (concat ss)))"

text \<open>
  \<open>resolveIdents(missingIdents, depRegistry, reqs)\<close> of \<open>importer.js\<close>.
  \<open>deps.map(d => d.id)\<close> throws a TypeError on an identifier that \<open>search\<close> does not
  find; the \<open>switch\<close> throws on one found as an inherited member.
\<close>

definition resolveIdents_root ::
  "string list \<Rightarrow> Deps \<Rightarrow> Req list \<Rightarrow> error + ((string \<times> Lib) list \<times> nat list)" where
  "resolveIdents_root missingIdents deps rs =
     (if list_ex (\<lambda>i. search deps i = Absent) missingIdents
      then Inl (TypeError ''dep is undefined'')
      else if list_ex (\<lambda>i. search deps i = Inherited) missingIdents
      then Inl (Error ''unexpected type undefined'')
      else
        (let ds = ownDeps deps missingIdents;
             depIDs = map depID rs @ map dep_id ds;
             libs0 = foldl (\<lambda>libs i. assign i emptyLib libs) [] depIDs;
             libs1 = foldl (\<lambda>libs (ident, dep). change (dep_id dep) (addName (dep_type dep) ident) libs)
                       libs0 (zip missingIdents ds);
             libsToAdd = ownLibs (foldl (\<lambda>libs r. change (depID r) (addReq r) libs) libs1 rs);
             nodesToRemove = concat (map (\<lambda>r. case node r of None \<Rightarrow> [] | Some n \<Rightarrow> [n]) rs);
             linesToRemove = addLines (concat (map linesOf nodesToRemove)) []
         in Inr (libsToAdd, linesToRemove)))"

text \<open>
  The loop of \<open>rewriteCode\<close> in \<open>importer.js\<close> over \<open>sourceByLine\<close>, which is
  \<open>sourceCode.lines\<close> after an empty line 0.
\<close>

definition emitLine_root ::
  "string list \<Rightarrow> nat list \<Rightarrow> nat \<Rightarrow> string \<Rightarrow> bool \<Rightarrow> nat \<Rightarrow> string" where
  "emitLine_root sourceByLine linesToRemove addRequiresLine requiresText hasReqs n =
     (if n \<notin> set linesToRemove then sourceByLine ! n @ newline else [])
     @ (if n = addRequiresLine \<and> length requiresText > 0
        then requiresText @ (if hasReqs then newline else newline @ newline)
        else [])"

text \<open>\<open>addRequiresLine\<close>: 0, or the first line of the first existing import.\<close>

definition addRequiresLine :: "Req list \<Rightarrow> error + nat" where
  "addRequiresLine rs =
     (case rs of
        [] \<Rightarrow> Inr 0
      | r # rest \<Rightarrow>
          (case node r of
             None \<Rightarrow> Inl (TypeError ''node is undefined'')
           | Some n \<Rightarrow> Inr (line (locStart n))))"

definition assemble_root ::
  "(string \<Rightarrow> bool) \<Rightarrow> (string \<Rightarrow> string \<Rightarrow> string) \<Rightarrow> Style \<Rightarrow> string list \<Rightarrow> Req list \<Rightarrow> string list
   \<Rightarrow> Deps \<Rightarrow> string \<Rightarrow> error + string" where
  "assemble_root pkgRegex relative st sourceLines rs missingIdents deps d =
     (let sourceByLine = [] # sourceLines
      in case resolveIdents_root missingIdents deps rs of
           Inl e \<Rightarrow> Inl e
         | Inr (libsToAdd, lines) \<Rightarrow>
             (let linesToRemove = addLine 0 lines
              in case composeRequires_root pkgRegex relative st libsToAdd d of
                   Inl e \<Rightarrow> Inl e
                 | Inr requiresText \<Rightarrow>
                     (case addRequiresLine rs of
                        Inl e \<Rightarrow> Inl e
                      | Inr target \<Rightarrow>
                          Inr (concat (map (emitLine_root sourceByLine linesToRemove target
                                              requiresText (length rs > 0))
                                         [0 ..< length sourceByLine])))))"

definition rewriteCode_root ::
  "(string \<Rightarrow> bool) \<Rightarrow> (string \<Rightarrow> string \<Rightarrow> string) \<Rightarrow> Style \<Rightarrow> string list \<Rightarrow> Req list \<Rightarrow> string list
   \<Rightarrow> Deps \<Rightarrow> string \<Rightarrow> error + string" where
  "rewriteCode_root pkgRegex relative st sourceLines rs missingIdents deps d =
     (case assemble_root pkgRegex relative st sourceLines rs missingIdents deps d of
        Inl e \<Rightarrow> Inl e
      | Inr newCode \<Rightarrow> Inr (endWithNewline newCode))"

section \<open>importer.js: run\<close>

text \<open>
  What \<open>lint\<close>, \<open>findImports.retrieve()\<close> and \<open>findStyle.retrieve()\<close> give for a
  code string, as data; \<open>sourceLines\<close> is \<open>sourceCode.lines\<close>, or \<open>None\<close> when there is
  no \<open>sourceCode\<close>.
\<close>

record Violation =
  ruleId :: string
  message :: string

record LintResult =
  violations :: "Violation list"
  sourceLines :: "string list option"
  foundReqs :: "Req list"
  foundStyle :: Style

text \<open>
  \<open>message.match(/^'(.*?)' is not defined.$/)\<close>: the name is what stands between the
  first quote and the last 17 characters, which are \<open>' is not defined\<close> and one more
  character; no line break may stand after the first quote.
\<close>

definition lineTerminator :: "char \<Rightarrow> bool" where
  "lineTerminator c = (c = CHR 0x0A \<or> c = CHR 0x0D)"

definition matchUndef :: "string \<Rightarrow> string option" where
  "matchUndef m =
     (if 18 \<le> length m \<and> take 1 m = [CHR 0x27]
         \<and> take 16 (drop (length m - 17) m) = CHR 0x27 # '' is not defined''
         \<and> \<not> list_ex lineTerminator (drop 1 m)
      then Some (take (length m - 18) (drop 1 m))
      else None)"

definition findMissingIdents_root :: "Violation list \<Rightarrow> Deps \<Rightarrow> string list" where
  "findMissingIdents_root vs deps =
     concat (map (\<lambda>v. case matchUndef (message v) of
                          None \<Rightarrow> []
                        | Some ident \<Rightarrow> if search deps ident \<noteq> Absent then [ident] else [])
               (filter (\<lambda>v. ruleId v = ''no-undef'') vs))"

text \<open>
  The surroundings of \<open>run\<close>: \<open>path.resolve\<close> on one and on two arguments,
  \<open>DepRegistry.populate(dir)\<close> as the outcome of its promise (rejected with an error,
  or fulfilled with the registry's \<open>deps\<close>), and the linter.
\<close>

record Env =
  pkgRegexOf :: "string \<Rightarrow> bool"
  relativeOf :: "string \<Rightarrow> string \<Rightarrow> string"
  resolve1 :: "string \<Rightarrow> string"
  resolve2 :: "string \<Rightarrow> string \<Rightarrow> string"
  populateOf :: "string \<Rightarrow> error + Deps"
  lint :: "string \<Rightarrow> LintResult"

definition resolveReq :: "Env \<Rightarrow> string \<Rightarrow> Req \<Rightarrow> Req" where
  "resolveReq env d r =
     (if \<not> pkgRegexOf env (depID r) then r\<lparr>depID := resolve2 env d (depID r)\<rparr> else r)"

text \<open>
  The function that \<open>run\<close> passes to \<open>then\<close>: \<open>Inl\<close> is a rejected promise. The
  violation that \<open>throw violations[0]\<close> throws is kept by its message.
\<close>

definition afterPopulate :: "Env \<Rightarrow> string \<Rightarrow> string \<Rightarrow> Deps \<Rightarrow> error + string" where
  "afterPopulate env code d deps =
     (let linted = lint env code
      in case sourceLines linted of
           None \<Rightarrow>
             (case violations linted of
                v # vs \<Rightarrow> Inl (Error (message v))
              | [] \<Rightarrow> Inl (Error ''couldn't parse code and no violations''))
         | Some ls \<Rightarrow>
             (let rs = map (resolveReq env d) (foundReqs linted);
                  missingIdents = findMissingIdents_root (violations linted) deps
              in rewriteCode_root (pkgRegexOf env) (relativeOf env) (foundStyle linted)
                   ls rs missingIdents deps d))"

text \<open>
  \<open>exports.run(code, dir)\<close> of \<open>importer.js\<close>. An argument is \<open>None\<close> when it is
  \<open>undefined\<close> or \<open>null\<close>. The outer \<open>Inl\<close> is an exception thrown by the call itself,
  the outer \<open>Inr\<close> the promise that it returns, with its outcome.
\<close>

definition run :: "Env \<Rightarrow> string option \<Rightarrow> string option \<Rightarrow> error + (error + string)" where
  "run env code d0 =
     (if \<not> truthy code \<or> \<not> truthy d0 then Inl (Error ''must provide code and dir'')
      else
        (let d = resolve1 env (the d0)
         in Inr (case populateOf env d of
                   Inl e \<Rightarrow> Inl e
                 | Inr deps \<Rightarrow> afterPopulate env (the code) d deps)))"

text \<open>Contexts and a registry on which the rewriter is run below.\<close>

definition fooDeps :: Deps where
  "fooDeps = [''foo'' \<mapsto> \<lparr>dep_id = ''bar'', dep_priority = 2, dep_type = Ident\<rparr>]"

definition nodeAt :: "nat \<Rightarrow> nat \<Rightarrow> nat \<Rightarrow> nat \<Rightarrow> Node" where
  "nodeAt l1 c1 l2 c2 =
     \<lparr>locStart = \<lparr>line = l1, column = c1\<rparr>, locEnd = \<lparr>line = l2, column = c2\<rparr>\<rparr>"

definition contextOf :: "string list \<Rightarrow> Node option \<Rightarrow> bool \<Rightarrow> string list \<Rightarrow> Context" where
  "contextOf ls directive ends names =
     \<lparr>reqs = [], style = requireStyle, textLines = ls, useStrict = directive,
      endsLine = (\<lambda>n. ends),
      globalScope =
        \<lparr>through = map (\<lambda>n. \<lparr>identifierName = n, isTypeOf = False, writeExpr = False\<rparr>) names,
         declared = []\<rparr>\<rparr>"

text \<open>
  An environment in which \<open>run\<close> is evaluated below: the registry knows \<open>foo\<close>, and
  the linter reports \<open>foo\<close> as undefined in a text of one line, ended by a line break.
\<close>

definition exampleEnv :: Env where
  "exampleEnv =
     \<lparr>pkgRegexOf = pkgRegexSpec, relativeOf = relativeBelow,
      resolve1 = (\<lambda>d. d), resolve2 = (\<lambda>d p. d @ ''/'' @ p),
      populateOf = (\<lambda>d. Inr fooDeps),
      lint = (\<lambda>code.
        \<lparr>violations = [\<lparr>ruleId = ''no-undef'', message = CHR 0x27 # ''foo'' @ CHR 0x27 # '' is not defined.''\<rparr>],
         sourceLines = Some [code, []], foundReqs = [], foundStyle = requireStyle\<rparr>)\<rparr>"

section \<open>Properties of the dependency registry\<close>

subsection \<open>computeDeps and associate\<close>

text \<open>What one call of \<open>associate\<close> leaves under the name it is given.\<close>

lemma associate_at_name:
  "search (associate deps name i p t) name =
     (case search deps name of
        Absent \<Rightarrow> Own \<lparr>dep_id = i, dep_priority = p, dep_type = t\<rparr>
      | Inherited \<Rightarrow> Inherited
      | Own dep \<Rightarrow>
          if dep_priority dep < p \<or> (dep_type dep = Prop \<and> t \<noteq> Prop)
          then Own \<lparr>dep_id = i, dep_priority = p, dep_type = t\<rparr>
          else Own dep)"
  by (simp add: associate_def search_def split: option.splits)

lemma associate_other_name:
  "name' \<noteq> name \<Longrightarrow> search (associate deps name i p t) name' = search deps name'"
  by (simp add: associate_def search_def split: option.splits Lookup.splits)

text \<open>
  C1. The claim: a project file has priority 1, a declared package 2, a builtin 3, and an
  existing \<open>deps[name]\<close> gives way to a candidate of numerically lower priority. On the
  code, with the builtin \<open>util\<close> and the project file \<open>/proj/util.js\<close> both offering the
  identifier \<open>util\<close>, the file is given priority 2 and the builtin, of priority 3, is kept:
  \<open>associate\<close> tests \<open>dep.priority < priority\<close>, and \<open>computeDeps\<close> gives priority 1 to
  the ids that \<open>pkgRegex\<close> matches.
\<close>

theorem computeDeps_keeps_builtin:
  "populate pkgRegexSpec (\<lambda>i. None) [''util''] ''v8.0.0'' Map.empty
     (Some \<lparr>dir = ''/proj'', meta = \<lparr>devDependencies = [], dependencies = []\<rparr>,
            files = [\<lparr>filePath = ''/proj/util.js'', mtime = 5,
                      analysis = Some \<lparr>hasExports = True, exIdents = [], exDefaults = [],
                                        exProps = [''inspect'']\<rparr>\<rparr>]\<rparr>)
   = [(''util'', \<lparr>version = VString ''v8.0.0'', idents = [''util'', ''Util''], defaults = [],
                   props = []\<rparr>),
      (''/proj/util.js'', \<lparr>version = VNumber 5, idents = [''util'', ''Util''], defaults = [],
                            props = [''inspect'']\<rparr>)]
   \<and> search
       (computeDeps pkgRegexSpec [''util'']
          [(''util'', \<lparr>version = VString ''v8.0.0'', idents = [''util'', ''Util''], defaults = [],
                        props = []\<rparr>),
           (''/proj/util.js'', \<lparr>version = VNumber 5, idents = [''util'', ''Util''], defaults = [],
                                 props = [''inspect'']\<rparr>)])
       ''util''
     = Own \<lparr>dep_id = ''util'', dep_priority = 3, dep_type = Ident\<rparr>
   \<and> computeDeps pkgRegexSpec [''util'']
       [(''util'', \<lparr>version = VString ''v8.0.0'', idents = [''util'', ''Util''], defaults = [],
                     props = []\<rparr>),
        (''/proj/util.js'', \<lparr>version = VNumber 5, idents = [''util'', ''Util''], defaults = [],
                              props = [''inspect'']\<rparr>)]
       ''util''
     = Some \<lparr>dep_id = ''util'', dep_priority = 3, dep_type = Ident\<rparr>
   \<and> priorityOf pkgRegexSpec [''util''] ''/proj/util.js'' = 2
   \<and> priorityOf pkgRegexSpec [''util''] ''lodash'' = 1"
  by code_simp

subsection \<open>populateFile without exports\<close>

lemma assign_same: "assign k v (assign k w kvs) = assign k v kvs"
  by (induction kvs) auto

text \<open>
  C2, as the code has it. When \<open>parser.run\<close> gives no exports for a project file (a falsy
  result, or \<open>hasExports\<close> false) nothing is thrown and \<open>populateFile\<close> leaves the entry
  as \<open>register\<close> made it: neither analysed exports nor identifiers derived from the file
  name are added, and the registry is the one \<open>register\<close> returned.
\<close>

theorem populateFile_no_exports:
  "populateFile pkgRegex entry p None = entry
   \<and> populateFile pkgRegex entry p (Some (ex\<lparr>hasExports := False\<rparr>)) = entry
   \<and> populateProjectFile pkgRegex cache reg (f\<lparr>analysis := None\<rparr>)
       = fst (register cache reg (filePath f) (VNumber (mtime f)))"
  by (auto simp: populateFile_def populateProjectFile_def register_def assign_same
      split: option.splits prod.splits)

text \<open>
  C2 as claimed fails: for \<open>/proj/foo-bar.js\<close> the identifiers derived from the file name
  are \<open>fooBar\<close> and \<open>FooBar\<close>, and the entry of a file without exports has none.
\<close>

theorem populateFile_no_exports_counterexample:
  "idents (populateFile pkgRegexSpec (freshEntry (VNumber 0)) ''/proj/foo-bar.js'' None) = []
   \<and> idents (populateIdents pkgRegexSpec (freshEntry (VNumber 0)) ''/proj/foo-bar.js'')
       = [''fooBar'', ''FooBar'']"
  by code_simp

subsection \<open>populateIdents\<close>

lemma isAlnum_toUpperCase: "isAlnum c \<Longrightarrow> isAlnum (toUpperCase c)"
  by (auto simp: isAlnum_def toUpperCase_def isLower_def isUpper_def isDigit_def)

lemma toUpperCase_digit: "isDigit c \<Longrightarrow> toUpperCase c = c"
  by (auto simp: toUpperCase_def isLower_def isDigit_def)

lemma splitNonWord_alnum:
  "list_all isAlnum cur \<Longrightarrow> p \<in> set (splitNonWord cur s) \<Longrightarrow> list_all isAlnum p"
proof (induction cur s rule: splitNonWord.induct)
  case (1 cur)
  then show ?case by simp
next
  case (2 cur c cs)
  show ?case
  proof (cases "nonWord c")
    case True
    with 2 show ?thesis by auto
  next
    case False
    then have "list_all isAlnum (cur @ [c])"
      using "2.prems"(1) by (simp add: nonWord_def)
    with False 2 show ?thesis by auto
  qed
qed

lemma capitalize_alnum: "list_all isAlnum p \<Longrightarrow> list_all isAlnum (capitalize p)"
  by (cases p) (auto simp: isAlnum_toUpperCase)

lemma capitalizeRest_alnum:
  "\<forall>p \<in> set ps. list_all isAlnum p \<Longrightarrow> \<forall>p \<in> set (capitalizeRest ps). list_all isAlnum p"
  by (cases ps) (auto simp: capitalize_alnum)

lemma camelCaseOf_alnum: "list_all isAlnum (camelCaseOf base)"
proof -
  have "\<forall>p \<in> set (filter (\<lambda>p. p \<noteq> []) (splitNonWord [] base)). list_all isAlnum p"
    using splitNonWord_alnum [of "[]" _ base] by auto
  then have "\<forall>p \<in> set (capitalizeRest (filter (\<lambda>p. p \<noteq> []) (splitNonWord [] base))). list_all isAlnum p"
    by (rule capitalizeRest_alnum)
  then show ?thesis
    unfolding camelCaseOf_def by (simp add: list_all_iff)
qed

lemma alnum_not_ident_capitalize:
  assumes "list_all isAlnum s" "\<not> identRegex s"
  shows "capitalize s = s"
proof (cases s)
  case Nil
  then show ?thesis by simp
next
  case (Cons c cs)
  have parts: "list_all identPart cs"
    using assms(1) Cons by (auto simp: list_all_iff identPart_def isAlnum_def)
  with assms(2) Cons have "\<not> identStart c" by simp
  moreover have "isAlnum c" using assms(1) Cons by simp
  ultimately have "isDigit c" by (auto simp: identStart_def isAlnum_def)
  then show ?thesis using Cons by (simp add: toUpperCase_digit)
qed

lemma length_lastComponent: "length (lastComponent p) \<le> length p"
proof -
  have "length (takeWhile (\<lambda>c. c \<noteq> CHR ''/'') (dropWhile (\<lambda>c. c = CHR ''/'') (rev p)))
          \<le> length (dropWhile (\<lambda>c. c = CHR ''/'') (rev p))"
    by (rule length_takeWhile_le)
  also have "\<dots> \<le> length (rev p)" by (rule length_dropWhile_le)
  finally show ?thesis by (simp add: lastComponent_def)
qed

lemma last_dot_split:
  assumes "CHR ''.'' \<in> set b"
  shows "\<exists>pre. b = pre @ CHR ''.'' # rev (takeWhile (\<lambda>c. c \<noteq> CHR ''.'') (rev b))"
proof -
  let ?P = "\<lambda>c. c \<noteq> CHR ''.''"
  have "dropWhile ?P (rev b) \<noteq> []" using assms by (simp add: dropWhile_eq_Nil_conv)
  then obtain d ds where d: "dropWhile ?P (rev b) = d # ds" by (cases "dropWhile ?P (rev b)") auto
  then have "d = CHR ''.''" using hd_dropWhile [of ?P "rev b"] by auto
  with d have "rev b = takeWhile ?P (rev b) @ CHR ''.'' # ds"
    using takeWhile_dropWhile_id [of ?P "rev b"] by simp
  then have "rev (rev b) = rev (takeWhile ?P (rev b) @ CHR ''.'' # ds)" by simp
  then have "b = rev ds @ CHR ''.'' # rev (takeWhile ?P (rev b))" by simp
  then show ?thesis by blast
qed

lemma basenameExt_extname: "basenameExt i (extname i) @ extname i = basename i"
proof (cases "extname i = []")
  case True
  then show ?thesis by (simp add: basenameExt_def)
next
  case False
  define b where "b = lastComponent i"
  define suf where "suf = rev (takeWhile (\<lambda>c. c \<noteq> CHR ''.'') (rev b))"
  from False have dot: "CHR ''.'' \<in> set b" and len: "Suc (length suf) \<noteq> length b"
    and ext: "extname i = CHR ''.'' # suf"
    by (auto simp: extname_def Let_def b_def suf_def split: if_splits)
  from last_dot_split [OF dot] obtain pre where pre: "b = pre @ CHR ''.'' # suf"
    unfolding suf_def by blast
  have sfx: "suffix (extname i) b" using pre ext by (simp add: suffix_def)
  have neq: "extname i \<noteq> b" using len ext by auto
  have "length (extname i) < length b" using pre ext len by auto
  moreover have "length b \<le> length i" unfolding b_def by (rule length_lastComponent)
  ultimately have le: "length (extname i) \<le> length i" and ne: "extname i \<noteq> i" by auto
  have "basenameExt i (extname i) = take (length b - length (extname i)) b"
    using False le ne sfx neq by (simp add: basenameExt_def b_def Let_def)
  also have "\<dots> = pre" using pre ext by simp
  finally show ?thesis using pre ext by (simp add: basename_def b_def)
qed

lemma splitNonWord_alnum_prefix:
  "list_all isAlnum t \<Longrightarrow> splitNonWord cur (t @ r) = splitNonWord (cur @ t) r"
  by (induction t arbitrary: cur) (auto simp: nonWord_def)

lemma dropWhile_nonWord:
  "list_all nonWord s \<Longrightarrow> r = [] \<or> \<not> nonWord (hd r) \<Longrightarrow> dropWhile nonWord (s @ r) = r"
  by (induction s) (auto simp: dropWhile_eq_self_iff)

lemma splitNonWord_separator:
  assumes "separator s" "r = [] \<or> \<not> nonWord (hd r)"
  shows "splitNonWord cur (s @ r) = cur # splitNonWord [] r"
proof -
  obtain c cs where s: "s = c # cs" "nonWord c" "list_all nonWord cs"
    using assms(1) by (cases s) (auto simp: separator_def)
  then show ?thesis using dropWhile_nonWord [of cs r] assms(2) by simp
qed

lemma splitNonWord_only_separators:
  "list_all nonWord s \<Longrightarrow>
   filter (\<lambda>p. p \<noteq> []) (splitNonWord cur s) = (if cur = [] then [] else [cur])"
proof (cases s)
  case Nil
  then show ?thesis by simp
next
  case (Cons c cs)
  assume a: "list_all nonWord s"
  then have d: "dropWhile nonWord cs = []" and c: "nonWord c"
    using Cons by (simp_all add: list_all_iff)
  have "splitNonWord cur (c # cs) = cur # splitNonWord [] (dropWhile nonWord cs)"
    using c by simp
  then have "splitNonWord cur s = cur # splitNonWord [] []"
    unfolding d Cons .
  then show ?thesis by simp
qed

lemma weave_head:
  "ts \<noteq> [] \<Longrightarrow> \<forall>t \<in> set ts. token t \<Longrightarrow> \<not> nonWord (hd (weave ts seps @ post))"
  by (cases "(ts, seps)" rule: weave.cases) (auto simp: token_def nonWord_def neq_Nil_conv)

lemma pieces_weave:
  assumes "\<forall>t \<in> set ts. token t" "\<forall>s \<in> set seps. separator s"
    "Suc (length seps) = length ts" "list_all nonWord post"
  shows "filter (\<lambda>p. p \<noteq> []) (splitNonWord cur (weave ts seps @ post)) = (cur @ hd ts) # tl ts"
  using assms
proof (induction ts seps arbitrary: cur rule: weave.induct)
  case (1 seps)
  then show ?case by simp
next
  case (2 t seps)
  then have "list_all isAlnum t" "t \<noteq> []" by (auto simp: token_def)
  then show ?case
    using 2 by (simp add: splitNonWord_alnum_prefix splitNonWord_only_separators)
next
  case (3 t t' ts)
  then show ?case by simp
next
  case (4 t t' ts s seps)
  have t: "list_all isAlnum t" using 4 by (auto simp: token_def)
  have s: "separator s" using 4 by auto
  have h: "weave (t' # ts) seps @ post = [] \<or> \<not> nonWord (hd (weave (t' # ts) seps @ post))"
    using weave_head [of "t' # ts" seps post] 4 by auto
  have "splitNonWord cur (weave (t # t' # ts) (s # seps) @ post)
          = splitNonWord (cur @ t) (s @ (weave (t' # ts) seps @ post))"
    using t by (simp add: splitNonWord_alnum_prefix)
  also have "\<dots> = (cur @ t) # splitNonWord [] (weave (t' # ts) seps @ post)"
    by (rule splitNonWord_separator [OF s h])
  finally have "filter (\<lambda>p. p \<noteq> []) (splitNonWord cur (weave (t # t' # ts) (s # seps) @ post))
          = filter (\<lambda>p. p \<noteq> []) ((cur @ t) # splitNonWord [] (weave (t' # ts) seps @ post))"
    by simp
  moreover have "t \<noteq> []" using 4 by (auto simp: token_def)
  moreover have "filter (\<lambda>p. p \<noteq> []) (splitNonWord [] (weave (t' # ts) seps @ post)) = ([] @ hd (t' # ts)) # tl (t' # ts)"
    using 4 by (intro "4.IH") auto
  ultimately show ?case by simp
qed

lemma camelCaseOf_weave:
  assumes "ts \<noteq> []" "\<forall>t \<in> set ts. token t" "\<forall>s \<in> set seps. separator s"
    "Suc (length seps) = length ts" "list_all nonWord pre" "list_all nonWord post"
  shows "camelCaseOf (pre @ weave ts seps @ post) = hd ts @ concat (map capitalize (tl ts))"
proof -
  have pieces: "filter (\<lambda>p. p \<noteq> []) (splitNonWord [] (weave ts seps @ post)) = hd ts # tl ts"
    using pieces_weave [OF assms(2,3,4,6), of "[]"] by simp
  have "filter (\<lambda>p. p \<noteq> []) (splitNonWord [] (pre @ weave ts seps @ post)) = hd ts # tl ts"
  proof (cases "pre = []")
    case True
    then show ?thesis using pieces by simp
  next
    case False
    then have "separator pre" using assms(5) by (simp add: separator_def)
    moreover have "weave ts seps @ post = [] \<or> \<not> nonWord (hd (weave ts seps @ post))"
      using weave_head [OF assms(1,2)] by simp
    ultimately have "splitNonWord [] (pre @ (weave ts seps @ post)) = [] # splitNonWord [] (weave ts seps @ post)"
      by (rule splitNonWord_separator)
    then show ?thesis using pieces by simp
  qed
  then show ?thesis by (simp add: camelCaseOf_def)
qed

lemma concat_splitNonWord: "concat (splitNonWord cur s) = cur @ filter isAlnum s"
proof (induction cur s rule: splitNonWord.induct)
  case (1 cur)
  then show ?case by simp
next
  case (2 cur c cs)
  have "filter isAlnum (dropWhile nonWord cs) = filter isAlnum cs"
    by (induction cs) (auto simp: nonWord_def)
  then show ?case using 2 by (auto simp: nonWord_def)
qed

lemma camelCaseOf_empty_iff: "camelCaseOf base \<noteq> [] \<longleftrightarrow> (\<exists>c \<in> set base. isAlnum c)"
proof -
  let ?ps = "filter (\<lambda>p. p \<noteq> []) (splitNonWord [] base)"
  have "concat (filter (\<lambda>p. p \<noteq> []) xs) = concat xs" for xs :: "string list"
    by (induction xs) auto
  then have "concat ?ps = concat (splitNonWord [] base)" .
  then have c: "concat ?ps = filter isAlnum base" by (simp add: concat_splitNonWord)
  have "camelCaseOf base = [] \<longleftrightarrow> ?ps = []"
  proof (cases ?ps)
    case Nil
    then show ?thesis by (simp add: camelCaseOf_def)
  next
    case (Cons p ps)
    then have "p \<in> set ?ps" by simp
    then have "p \<noteq> []" by simp
    then show ?thesis using Cons by (simp add: camelCaseOf_def)
  qed
  also have "\<dots> \<longleftrightarrow> concat ?ps = []"
  proof (cases ?ps)
    case Nil
    then show ?thesis by simp
  next
    case (Cons p ps)
    then have "p \<in> set ?ps" by simp
    then have "p \<noteq> []" by simp
    then show ?thesis using Cons by simp
  qed
  also have "\<dots> \<longleftrightarrow> \<not> (\<exists>c \<in> set base. isAlnum c)"
    unfolding c by (auto simp: filter_empty_conv)
  finally show ?thesis by blast
qed

lemma weave_decompose_tail:
  "s \<noteq> [] \<Longrightarrow> isAlnum (hd s) \<Longrightarrow>
   \<exists>ts seps post. s = weave ts seps @ post \<and> ts \<noteq> [] \<and> (\<forall>t \<in> set ts. token t)
      \<and> (\<forall>x \<in> set seps. separator x) \<and> Suc (length seps) = length ts
      \<and> list_all nonWord post"
proof (induction "length s" arbitrary: s rule: less_induct)
  case less
  define t where "t = takeWhile isAlnum s"
  define r where "r = dropWhile isAlnum s"
  have s: "s = t @ r" by (simp add: t_def r_def)
  have tne: "t \<noteq> []"
    using less.prems by (cases s) (auto simp: t_def)
  have tok: "token t"
    using tne by (auto simp: token_def t_def list_all_iff dest: set_takeWhileD)
  show ?case
  proof (cases "list_all nonWord r")
    case True
    have "s = weave [t] [] @ r" using s by simp
    then show ?thesis using tok True
      by (intro exI [of _ "[t]"] exI [of _ "[]"] exI [of _ r]) simp
  next
    case False
    define sp where "sp = takeWhile nonWord r"
    define r' where "r' = dropWhile nonWord r"
    have r: "r = sp @ r'" by (simp add: sp_def r'_def)
    have rne: "r \<noteq> []" using False by auto
    then have "\<not> isAlnum (hd r)"
      unfolding r_def by (rule hd_dropWhile)
    then have spne: "sp \<noteq> []"
      using rne by (cases r) (auto simp: sp_def nonWord_def)
    have sep: "separator sp"
      using spne by (auto simp: separator_def sp_def list_all_iff dest: set_takeWhileD)
    have r'ne: "r' \<noteq> []"
      using False by (auto simp: r'_def list_all_iff)
    then have "\<not> nonWord (hd r')"
      unfolding r'_def by (rule hd_dropWhile)
    then have hd: "isAlnum (hd r')" by (simp add: nonWord_def)
    have "length r' < length s"
      using s r tne by simp
    from less.hyps [OF this r'ne hd]
    obtain ts seps post where ih: "r' = weave ts seps @ post" "ts \<noteq> []" "\<forall>t \<in> set ts. token t"
      "\<forall>x \<in> set seps. separator x" "Suc (length seps) = length ts" "list_all nonWord post"
      by blast
    from ih(2) obtain t' ts' where ts: "ts = t' # ts'" by (cases ts) auto
    have "s = weave (t # ts) (sp # seps) @ post"
      using s r ih(1) ts by simp
    then show ?thesis
      using tok sep ih
      by (intro exI [of _ "t # ts"] exI [of _ "sp # seps"] exI [of _ post]) simp
  qed
qed

lemma weave_decompose:
  assumes "\<exists>c \<in> set base. isAlnum c"
  shows "\<exists>pre ts seps post. base = pre @ weave ts seps @ post \<and> ts \<noteq> []
      \<and> (\<forall>t \<in> set ts. token t) \<and> (\<forall>x \<in> set seps. separator x)
      \<and> Suc (length seps) = length ts \<and> list_all nonWord pre \<and> list_all nonWord post"
proof -
  define pre where "pre = takeWhile nonWord base"
  define s where "s = dropWhile nonWord base"
  have b: "base = pre @ s" by (simp add: pre_def s_def)
  have p: "list_all nonWord pre"
    by (auto simp: pre_def list_all_iff dest: set_takeWhileD)
  have sne: "s \<noteq> []"
    using assms by (auto simp: s_def nonWord_def)
  then have "\<not> nonWord (hd s)"
    unfolding s_def by (rule hd_dropWhile)
  then have "isAlnum (hd s)" by (simp add: nonWord_def)
  from weave_decompose_tail [OF sne this] b p show ?thesis
    by blast
qed

text \<open>
  C3, as the code has it. \<open>base\<close> is the id without a slash, \<open>basename(id)\<close> for an id
  that \<open>pkgRegex\<close> matches, and otherwise the basename without its extension (the
  basename is that \<open>base\<close> followed by the extension). The names that
  \<open>populateIdents\<close> adds are \<open>base\<close> when it matches \<open>identRegex\<close> (a letter, \<open>$\<close>
  or \<open>_\<close>, followed by letters, digits, \<open>$\<close> and \<open>_\<close>) and, when \<open>base\<close> has a letter
  or a digit, the camel case of \<open>base\<close> and that camel case with its first character in
  upper case, either of which may be \<open>base\<close> itself; it adds nothing else. The camel
  case is not empty exactly when \<open>base\<close> has a letter or a digit. For a \<open>base\<close> made
  of tokens (non-empty runs of letters and digits) with separators (non-empty runs of
  other characters) between them, and any other characters before and behind, the camel
  case is the first token as it is written followed by the other tokens, each with its
  first character in upper case; upper case changes the letters \<open>a\<close> to \<open>z\<close> only.
  Every \<open>base\<close> that has a letter or a digit is made in that way.
\<close>

theorem populateIdents_adds:
  "set (idents (populateIdents pkgRegex entry i)) =
     set (idents entry)
     \<union> (if identRegex (baseOf pkgRegex i) then {baseOf pkgRegex i} else {})
     \<union> (if camelCaseOf (baseOf pkgRegex i) \<noteq> []
        then {camelCaseOf (baseOf pkgRegex i), capitalize (camelCaseOf (baseOf pkgRegex i))}
        else {})
   \<and> baseOf pkgRegex i =
       (if CHR ''/'' \<notin> set i then i
        else if pkgRegex i then basename i
        else basenameExt i (extname i))
   \<and> basenameExt i (extname i) @ extname i = basename i
   \<and> (camelCaseOf base \<noteq> [] \<longleftrightarrow> (\<exists>c \<in> set base. isAlnum c))
   \<and> (ts \<noteq> [] \<and> (\<forall>t \<in> set ts. t \<noteq> [] \<and> list_all isAlnum t)
        \<and> (\<forall>s \<in> set seps. s \<noteq> [] \<and> list_all (\<lambda>c. \<not> isAlnum c) s)
        \<and> Suc (length seps) = length ts
        \<and> list_all (\<lambda>c. \<not> isAlnum c) pre \<and> list_all (\<lambda>c. \<not> isAlnum c) post \<longrightarrow>
        camelCaseOf (pre @ weave ts seps @ post) = hd ts @ concat (map capitalize (tl ts)))
   \<and> capitalize (c # cs) = toUpperCase c # cs
   \<and> capitalize [] = []
   \<and> (isAlnum c \<longleftrightarrow>
        48 \<le> (of_char c :: nat) \<and> (of_char c :: nat) \<le> 57
        \<or> 65 \<le> (of_char c :: nat) \<and> (of_char c :: nat) \<le> 90
        \<or> 97 \<le> (of_char c :: nat) \<and> (of_char c :: nat) \<le> 122)
   \<and> toUpperCase c =
       (if 97 \<le> (of_char c :: nat) \<and> (of_char c :: nat) \<le> 122
        then char_of ((of_char c :: nat) - 32) else c)
   \<and> (identRegex base \<longleftrightarrow>
        (\<exists>b bs. base = b # bs
           \<and> (b = CHR ''$'' \<or> b = CHR ''_'' \<or> isAlnum b \<and> \<not> isDigit b)
           \<and> list_all (\<lambda>x. x = CHR ''$'' \<or> x = CHR ''_'' \<or> isAlnum x) bs))
   \<and> ((\<exists>c \<in> set base. isAlnum c) \<longrightarrow>
        (\<exists>pre ts seps post. base = pre @ weave ts seps @ post \<and> ts \<noteq> []
           \<and> (\<forall>t \<in> set ts. t \<noteq> [] \<and> list_all isAlnum t)
           \<and> (\<forall>s \<in> set seps. s \<noteq> [] \<and> list_all (\<lambda>c. \<not> isAlnum c) s)
           \<and> Suc (length seps) = length ts
           \<and> list_all (\<lambda>c. \<not> isAlnum c) pre \<and> list_all (\<lambda>c. \<not> isAlnum c) post))"
proof -
  define b where "b = baseOf pkgRegex i"
  have key: "camelCaseOf b = b \<Longrightarrow> \<not> identRegex b \<Longrightarrow> capitalize b = b"
    using alnum_not_ident_capitalize [of b] camelCaseOf_alnum [of b] by simp
  have adds: "set (idents (populateIdents pkgRegex entry i)) =
     set (idents entry)
     \<union> (if identRegex b then {b} else {})
     \<union> (if camelCaseOf b \<noteq> [] then {camelCaseOf b, capitalize (camelCaseOf b)} else {})"
    unfolding populateIdents_def Let_def push_def b_def [symmetric]
    using key by auto
  have weave: "ts \<noteq> [] \<and> (\<forall>t \<in> set ts. t \<noteq> [] \<and> list_all isAlnum t)
        \<and> (\<forall>s \<in> set seps. s \<noteq> [] \<and> list_all (\<lambda>c. \<not> isAlnum c) s)
        \<and> Suc (length seps) = length ts
        \<and> list_all (\<lambda>c. \<not> isAlnum c) pre \<and> list_all (\<lambda>c. \<not> isAlnum c) post \<longrightarrow>
        camelCaseOf (pre @ weave ts seps @ post) = hd ts @ concat (map capitalize (tl ts))"
    using camelCaseOf_weave [of ts seps pre post]
    by (auto simp: token_def separator_def nonWord_def [abs_def])
  have ident: "identRegex base \<longleftrightarrow>
        (\<exists>b bs. base = b # bs
           \<and> (b = CHR ''$'' \<or> b = CHR ''_'' \<or> isAlnum b \<and> \<not> isDigit b)
           \<and> list_all (\<lambda>x. x = CHR ''$'' \<or> x = CHR ''_'' \<or> isAlnum x) bs)"
  proof (cases base)
    case Nil
    then show ?thesis by simp
  next
    case (Cons x xs)
    have "identPart = (\<lambda>x. x = CHR ''$'' \<or> x = CHR ''_'' \<or> isAlnum x)"
      by (auto simp: identPart_def isAlnum_def fun_eq_iff)
    moreover have "identStart x \<longleftrightarrow> (x = CHR ''$'' \<or> x = CHR ''_'' \<or> isAlnum x \<and> \<not> isDigit x)"
      by (auto simp: identStart_def isAlnum_def isDigit_def isUpper_def isLower_def)
    ultimately show ?thesis using Cons by simp
  qed
  have alnum: "isAlnum c \<longleftrightarrow>
        48 \<le> (of_char c :: nat) \<and> (of_char c :: nat) \<le> 57
        \<or> 65 \<le> (of_char c :: nat) \<and> (of_char c :: nat) \<le> 90
        \<or> 97 \<le> (of_char c :: nat) \<and> (of_char c :: nat) \<le> 122"
    by (auto simp: isAlnum_def isDigit_def isUpper_def isLower_def)
  have upper: "toUpperCase c =
       (if 97 \<le> (of_char c :: nat) \<and> (of_char c :: nat) \<le> 122
        then char_of ((of_char c :: nat) - 32) else c)"
    by (simp add: toUpperCase_def isLower_def)
  have decompose: "((\<exists>c \<in> set base. isAlnum c) \<longrightarrow>
          (\<exists>pre ts seps post. base = pre @ weave ts seps @ post \<and> ts \<noteq> []
             \<and> (\<forall>t \<in> set ts. t \<noteq> [] \<and> list_all isAlnum t)
             \<and> (\<forall>s \<in> set seps. s \<noteq> [] \<and> list_all (\<lambda>c. \<not> isAlnum c) s)
             \<and> Suc (length seps) = length ts
             \<and> list_all (\<lambda>c. \<not> isAlnum c) pre \<and> list_all (\<lambda>c. \<not> isAlnum c) post))"
    using weave_decompose [of base]
    unfolding token_def separator_def nonWord_def [abs_def]
    by blast
  have main: "set (idents (populateIdents pkgRegex entry i)) =
     set (idents entry)
     \<union> (if identRegex (baseOf pkgRegex i) then {baseOf pkgRegex i} else {})
     \<union> (if camelCaseOf (baseOf pkgRegex i) \<noteq> []
        then {camelCaseOf (baseOf pkgRegex i), capitalize (camelCaseOf (baseOf pkgRegex i))}
        else {})
   \<and> baseOf pkgRegex i =
       (if CHR ''/'' \<notin> set i then i
        else if pkgRegex i then basename i
        else basenameExt i (extname i))
   \<and> basenameExt i (extname i) @ extname i = basename i
   \<and> (camelCaseOf base \<noteq> [] \<longleftrightarrow> (\<exists>c \<in> set base. isAlnum c))
   \<and> (ts \<noteq> [] \<and> (\<forall>t \<in> set ts. t \<noteq> [] \<and> list_all isAlnum t)
        \<and> (\<forall>s \<in> set seps. s \<noteq> [] \<and> list_all (\<lambda>c. \<not> isAlnum c) s)
        \<and> Suc (length seps) = length ts
        \<and> list_all (\<lambda>c. \<not> isAlnum c) pre \<and> list_all (\<lambda>c. \<not> isAlnum c) post \<longrightarrow>
        camelCaseOf (pre @ weave ts seps @ post) = hd ts @ concat (map capitalize (tl ts)))
   \<and> capitalize (c # cs) = toUpperCase c # cs
   \<and> capitalize [] = []
   \<and> (isAlnum c \<longleftrightarrow>
        48 \<le> (of_char c :: nat) \<and> (of_char c :: nat) \<le> 57
        \<or> 65 \<le> (of_char c :: nat) \<and> (of_char c :: nat) \<le> 90
        \<or> 97 \<le> (of_char c :: nat) \<and> (of_char c :: nat) \<le> 122)
   \<and> toUpperCase c =
       (if 97 \<le> (of_char c :: nat) \<and> (of_char c :: nat) \<le> 122
        then char_of ((of_char c :: nat) - 32) else c)
   \<and> (identRegex base \<longleftrightarrow>
        (\<exists>b bs. base = b # bs
           \<and> (b = CHR ''$'' \<or> b = CHR ''_'' \<or> isAlnum b \<and> \<not> isDigit b)
           \<and> list_all (\<lambda>x. x = CHR ''$'' \<or> x = CHR ''_'' \<or> isAlnum x) bs))"
    using adds weave ident alnum upper camelCaseOf_empty_iff [of base]
    unfolding b_def
    by (simp add: basenameExt_extname) (simp add: baseOf_def)
  show ?thesis
    using main decompose by (elim conjE) (intro conjI; assumption)
qed

theorem populateIdents_adds_witness:
  "camelCaseOf (''.'' @ weave [''Foo'', ''bar'', ''baz''] [''-'', ''__''] @ ''!'') = ''FooBarBaz''
   \<and> weave [''Foo'', ''bar'', ''baz''] [''-'', ''__''] = ''Foo-bar__baz''
   \<and> camelCaseOf ''--'' = []
   \<and> set (idents (populateIdents pkgRegexSpec (freshEntry (VString ''1.0.0'')) ''/proj/lib/foo-bar.js''))
       = {''fooBar'', ''FooBar''}"
proof -
  let ?ts = "[''Foo'', ''bar'', ''baz'']"
  let ?seps = "[''-'', ''__'']"
  have hyp: "?ts \<noteq> [] \<and> (\<forall>t \<in> set ?ts. t \<noteq> [] \<and> list_all isAlnum t)
        \<and> (\<forall>s \<in> set ?seps. s \<noteq> [] \<and> list_all (\<lambda>c. \<not> isAlnum c) s)
        \<and> Suc (length ?seps) = length ?ts
        \<and> list_all (\<lambda>c. \<not> isAlnum c) ''.'' \<and> list_all (\<lambda>c. \<not> isAlnum c) ''!''"
    by code_simp
  have none: "\<not> (\<exists>c \<in> set ''--''. isAlnum c)"
    by code_simp
  have rhs: "hd ?ts @ concat (map capitalize (tl ?ts)) = ''FooBarBaz''"
    by code_simp
  have w: "weave ?ts ?seps = ''Foo-bar__baz''"
    by code_simp
  have b: "baseOf pkgRegexSpec ''/proj/lib/foo-bar.js'' = ''foo-bar''"
    by code_simp
  have c: "\<not> identRegex ''foo-bar''" "camelCaseOf ''foo-bar'' = ''fooBar''"
    "capitalize ''fooBar'' = ''FooBar''" "idents (freshEntry (VString ''1.0.0'')) = []"
    by code_simp+
  note inst = populateIdents_adds [of pkgRegexSpec "freshEntry (VString ''1.0.0'')"
      "''/proj/lib/foo-bar.js''" "''--''" ?ts ?seps "''.''" "''!''"]
  from inst hyp have "camelCaseOf (''.'' @ weave ?ts ?seps @ ''!'') = hd ?ts @ concat (map capitalize (tl ?ts))"
    by blast
  moreover from inst none have "camelCaseOf ''--'' = []"
    by blast
  moreover have "set (idents (populateIdents pkgRegexSpec (freshEntry (VString ''1.0.0'')) ''/proj/lib/foo-bar.js''))
       = {''fooBar'', ''FooBar''}"
    unfolding conjunct1 [OF inst] b by (simp only: c) simp
  ultimately show ?thesis
    using rhs w by simp
qed

text \<open>
  C3 as claimed fails: for the id \<open>Foo-bar\<close> the first token is not put in lower case
  (the claim's camel case would be \<open>fooBar\<close>), and \<open>FooBar\<close> is pushed twice.
\<close>

theorem populateIdents_counterexample:
  "idents (populateIdents pkgRegexSpec (freshEntry (VString ''1.0.0'')) ''Foo-bar'')
     = [''FooBar'', ''FooBar'']"
  by code_simp

subsection \<open>Promotion of idents to defaults\<close>

lemma defaults_populateIdents: "defaults (populateIdents pkgRegex e i) = defaults e"
  by (simp add: populateIdents_def Let_def push_def)

lemma set_assign: "set (assign k v kvs) \<subseteq> insert (k, v) (set kvs)"
  by (induction kvs) (auto split: if_splits)

lemma register_cases:
  assumes "register cache reg i v = (reg', r)"
  shows "(r = Some (freshEntry v) \<and> reg' = assign i (freshEntry v) reg)
         \<or> (r = None \<and> (\<exists>c. cache i = Some c \<and> reg' = assign i c reg))"
  using assms by (auto simp: register_def split: option.splits if_splits)

lemma idents_populateIdents:
  "idents (populateIdents pkgRegex e i) = idents e @ derivedIdents pkgRegex i"
  by (simp add: populateIdents_def derivedIdents_def Let_def push_def freshEntry_def)

lemma props_populateIdents: "props (populateIdents pkgRegex e i) = props e"
  by (simp add: populateIdents_def Let_def push_def)

lemma set_pushMissing: "set (pushMissing ds is) = set ds \<union> set is"
  by (induction "is" arbitrary: ds) auto

lemma populatePropsDefaults_cases:
  "populatePropsDefaults probe e j =
     (case probe j of
        None \<Rightarrow> e
      | Some (ps, hasDefault) \<Rightarrow>
          if hasDefault
          then e\<lparr>props := props e @ ps, defaults := defaults e @ idents e, idents := []\<rparr>
          else e\<lparr>props := props e @ ps\<rparr>)"
  by (simp add: populatePropsDefaults_def Let_def split: option.splits prod.splits)

lemma promotedFrom_package:
  "promotedFrom (derivedIdents pkgRegex i)
     (populatePropsDefaults probe (populateIdents pkgRegex (freshEntry v) i) j)"
  by (auto simp: populatePropsDefaults_cases promotedFrom_def idents_populateIdents
      defaults_populateIdents freshEntry_def split: option.splits)

lemma populateFile_cases:
  "populateFile pkgRegex e p (Some ex) =
     (if hasExports ex then
        (let m = populateIdents pkgRegex
                   (e\<lparr>defaults := defaults e @ exDefaults ex, props := props e @ exProps ex,
                      idents := idents e @ exIdents ex\<rparr>) p
         in if defaults m \<noteq> []
            then m\<lparr>defaults := pushMissing (defaults m) (idents m), idents := []\<rparr>
            else m)
      else e)"
  by (simp add: populateFile_def Let_def)

lemma promotedFrom_file:
  "promotedFrom (derivedIdents pkgRegex p) (populateFile pkgRegex (freshEntry v) p a)"
proof (cases a)
  case None
  then show ?thesis by (simp add: populateFile_def promotedFrom_def freshEntry_def)
next
  case (Some ex)
  then show ?thesis
    by (auto simp: populateFile_cases Let_def promotedFrom_def idents_populateIdents
        defaults_populateIdents set_pushMissing freshEntry_def)
qed

lemma settled_assign:
  "settled pkgRegex cache reg \<Longrightarrow>
   promotedFrom (derivedIdents pkgRegex i) e \<or> cache i = Some e \<Longrightarrow>
   settled pkgRegex cache (assign i e reg)"
  using set_assign [of i e reg] by (fastforce simp: settled_def)

lemma settled_step:
  assumes "settled pkgRegex cache reg"
    "promotedFrom (derivedIdents pkgRegex i) (fill (freshEntry v))"
  shows "settled pkgRegex cache
    (case register cache reg i v of
       (reg', None) \<Rightarrow> reg'
     | (reg', Some entry) \<Rightarrow> assign i (fill entry) reg')"
proof -
  obtain reg' r where r: "register cache reg i v = (reg', r)" by force
  from register_cases [OF r] show ?thesis
  proof
    assume "r = Some (freshEntry v) \<and> reg' = assign i (freshEntry v) reg"
    then show ?thesis
      using r assms by (simp add: assign_same settled_assign)
  next
    assume "r = None \<and> (\<exists>c. cache i = Some c \<and> reg' = assign i c reg)"
    then show ?thesis
      using r assms(1) by (auto simp: settled_assign)
  qed
qed

lemma settled_foldl:
  assumes "\<And>reg x. settled pkgRegex cache reg \<Longrightarrow> settled pkgRegex cache (step reg x)"
    "settled pkgRegex cache reg"
  shows "settled pkgRegex cache (foldl step reg xs)"
  using assms(2) by (induction xs arbitrary: reg) (auto simp: assms(1))

lemma settled_populate:
  "settled pkgRegex cache (populate pkgRegex probe builtinLibs processVersion cache project)"
proof -
  have b: "settled pkgRegex cache reg \<Longrightarrow>
        settled pkgRegex cache (populateBuiltin pkgRegex probe processVersion cache reg i)" for reg i
    unfolding populateBuiltin_def
    by (rule settled_step
          [where fill = "\<lambda>entry. populatePropsDefaults probe (populateIdents pkgRegex entry i) i"])
       (simp_all add: promotedFrom_package)
  have d: "settled pkgRegex cache reg \<Longrightarrow>
        settled pkgRegex cache (populateDependency pkgRegex probe dr cache reg dep)" for reg dr dep
    unfolding populateDependency_def
    by (rule settled_step
          [where fill = "\<lambda>entry. populatePropsDefaults probe
                           (populateIdents pkgRegex entry (fst dep)) (nodeModulesPath dr (fst dep))"])
       (simp_all add: promotedFrom_package)
  have f: "settled pkgRegex cache reg \<Longrightarrow>
        settled pkgRegex cache (populateProjectFile pkgRegex cache reg pf)" for reg pf
    unfolding populateProjectFile_def
    by (rule settled_step
          [where fill = "\<lambda>entry. populateFile pkgRegex entry (filePath pf) (analysis pf)"])
       (simp_all add: promotedFrom_file)
  have r1: "settled pkgRegex cache
              (foldl (populateBuiltin pkgRegex probe processVersion cache) [] builtinLibs)"
  proof (rule settled_foldl)
    show "settled pkgRegex cache []" by (simp add: settled_def)
  qed (rule b)
  show ?thesis
  proof (cases project)
    case None
    then show ?thesis using r1 by (simp add: populate_def)
  next
    case (Some pr)
    have r2: "settled pkgRegex cache
                (foldl (populateDependency pkgRegex probe (dir pr) cache)
                   (foldl (populateBuiltin pkgRegex probe processVersion cache) [] builtinLibs)
                   (mergedDependencies (meta pr)))"
      by (rule settled_foldl) (simp_all add: d r1)
    have "settled pkgRegex cache
            (foldl (populateProjectFile pkgRegex cache)
               (foldl (populateDependency pkgRegex probe (dir pr) cache)
                  (foldl (populateBuiltin pkgRegex probe processVersion cache) [] builtinLibs)
                  (mergedDependencies (meta pr)))
               (files pr))"
      by (rule settled_foldl) (simp_all add: f r2)
    then show ?thesis using Some by (simp add: populate_def)
  qed
qed

lemma written_promoted:
  "written pkgRegex cache \<Longrightarrow> cache i = Some e \<Longrightarrow> promotedFrom (derivedIdents pkgRegex i) e"
proof (induction arbitrary: i e rule: written.induct)
  case written_empty
  then show ?case by simp
next
  case (written_populate cache probe builtinLibs processVersion project)
  let ?reg = "populate pkgRegex probe builtinLibs processVersion cache project"
  from written_populate.prems have "(i, e) \<in> set ?reg" by (rule map_of_SomeD)
  then have "promotedFrom (derivedIdents pkgRegex i) e \<or> cache i = Some e"
    using settled_populate [of pkgRegex cache probe builtinLibs processVersion project]
    by (auto simp: settled_def)
  then show ?case using written_populate.IH by blast
qed

lemma populate_first_run:
  "populate pkgRegexSpec (\<lambda>i. if i = ''fs'' then Some ([''readFile''], False) else None)
     [''fs''] ''v8.0.0'' Map.empty None
   = [(''fs'', \<lparr>version = VString ''v8.0.0'', idents = [''fs'', ''Fs''], defaults = [],
                 props = [''readFile'']\<rparr>)]"
  by code_simp

lemma populate_second_run:
  "populate pkgRegexSpec
     (\<lambda>i. if i = ''/proj/node_modules/left-pad'' then Some ([''pad''], True)
          else if i = ''fs'' then Some ([''readFile''], False) else None)
     [''fs''] ''v8.0.0''
     (map_of [(''fs'', \<lparr>version = VString ''v8.0.0'', idents = [''fs'', ''Fs''], defaults = [],
                        props = [''readFile'']\<rparr>)])
     (Some \<lparr>dir = ''/proj'',
            meta = \<lparr>devDependencies = [], dependencies = [(''left-pad'', ''1.3.0'')]\<rparr>,
            files = [\<lparr>filePath = ''/proj/a.js'', mtime = 7,
                      analysis = Some \<lparr>hasExports = True, exIdents = [''a''],
                                        exDefaults = [''b''], exProps = []\<rparr>\<rparr>]\<rparr>)
   = [(''fs'', \<lparr>version = VString ''v8.0.0'', idents = [''fs'', ''Fs''], defaults = [],
                 props = [''readFile'']\<rparr>),
      (''left-pad'', \<lparr>version = VString ''1.3.0'', idents = [],
                       defaults = [''leftPad'', ''LeftPad''], props = [''pad'']\<rparr>),
      (''/proj/a.js'', \<lparr>version = VNumber 7, idents = [], defaults = [''b'', ''a'', ''A''],
                         props = []\<rparr>)]"
  by code_simp

text \<open>
  C4. The cache that \<open>populate\<close> reads is empty or was written by an earlier
  \<open>populate\<close>. On such a cache, every entry of the registry that \<open>populate\<close> leaves
  (filled by the package probe, filled by the analysis of a project file, or reused from
  the cache) has disjoint \<open>idents\<close> and \<open>defaults\<close>, and when its \<open>defaults\<close> are not
  empty its \<open>idents\<close> are empty and the identifiers derived from its id are among the
  defaults: they have been promoted. On any cache at all, an entry of the registry is the
  cached entry, reused as it is, or has that property. The promotion itself: the probe
  that finds a real default appends the \<open>idents\<close> to the \<open>defaults\<close> and empties
  \<open>idents\<close>; a project file with defaults has its \<open>idents\<close> pushed into the
  \<open>defaults\<close> that lack them, and \<open>idents\<close> emptied.
\<close>

theorem populate_promoted:
  "(written pkgRegex cache \<longrightarrow>
      (\<forall>(i, e) \<in> set (populate pkgRegex probe builtinLibs processVersion cache project).
         set (idents e) \<inter> set (defaults e) = {}
         \<and> (defaults e \<noteq> [] \<longrightarrow>
              idents e = [] \<and> set (derivedIdents pkgRegex i) \<subseteq> set (defaults e))))
   \<and> (\<forall>(i, e) \<in> set (populate pkgRegex probe builtinLibs processVersion cache project).
         cache i = Some e
         \<or> (set (idents e) \<inter> set (defaults e) = {}
            \<and> (defaults e \<noteq> [] \<longrightarrow>
                 idents e = [] \<and> set (derivedIdents pkgRegex i) \<subseteq> set (defaults e))))
   \<and> derivedIdents pkgRegex i = idents (populateIdents pkgRegex (freshEntry v) i)
   \<and> populatePropsDefaults probe entry j =
       (case probe j of
          None \<Rightarrow> entry
        | Some (ps, hasDefault) \<Rightarrow>
            if hasDefault
            then entry\<lparr>props := props entry @ ps, defaults := defaults entry @ idents entry,
                       idents := []\<rparr>
            else entry\<lparr>props := props entry @ ps\<rparr>)
   \<and> populateFile pkgRegex entry p (Some ex) =
       (if hasExports ex then
          (let m = populateIdents pkgRegex
                     (entry\<lparr>defaults := defaults entry @ exDefaults ex,
                             props := props entry @ exProps ex,
                             idents := idents entry @ exIdents ex\<rparr>) p
           in if defaults m \<noteq> []
              then m\<lparr>defaults := pushMissing (defaults m) (idents m), idents := []\<rparr>
              else m)
        else entry)
   \<and> set (pushMissing ds ns) = set ds \<union> set ns"
proof -
  have a: "written pkgRegex cache \<longrightarrow>
      (\<forall>(i, e) \<in> set (populate pkgRegex probe builtinLibs processVersion cache project).
         promotedFrom (derivedIdents pkgRegex i) e)"
    using settled_populate [of pkgRegex cache probe builtinLibs processVersion project]
      written_promoted [of pkgRegex cache]
    by (auto simp: settled_def)
  have b: "\<forall>(i, e) \<in> set (populate pkgRegex probe builtinLibs processVersion cache project).
         cache i = Some e \<or> promotedFrom (derivedIdents pkgRegex i) e"
    using settled_populate [of pkgRegex cache probe builtinLibs processVersion project]
    by (auto simp: settled_def)
  have c: "derivedIdents pkgRegex i = idents (populateIdents pkgRegex (freshEntry v) i)"
    by (simp add: idents_populateIdents freshEntry_def)
  show ?thesis
    using a b c populatePropsDefaults_cases [of probe entry j]
      populateFile_cases [of pkgRegex entry p ex] set_pushMissing [of ds ns]
    unfolding promotedFrom_def by blast
qed

theorem populate_promoted_witness:
  "map (\<lambda>(i, e). (i, idents e, defaults e))
     (populate pkgRegexSpec
       (\<lambda>i. if i = ''/proj/node_modules/left-pad'' then Some ([''pad''], True)
            else if i = ''fs'' then Some ([''readFile''], False) else None)
       [''fs''] ''v8.0.0''
       (map_of (populate pkgRegexSpec
          (\<lambda>i. if i = ''fs'' then Some ([''readFile''], False) else None)
          [''fs''] ''v8.0.0'' Map.empty None))
       (Some \<lparr>dir = ''/proj'',
              meta = \<lparr>devDependencies = [], dependencies = [(''left-pad'', ''1.3.0'')]\<rparr>,
              files = [\<lparr>filePath = ''/proj/a.js'', mtime = 7,
                        analysis = Some \<lparr>hasExports = True, exIdents = [''a''],
                                          exDefaults = [''b''], exProps = []\<rparr>\<rparr>]\<rparr>))
   = [(''fs'', [''fs'', ''Fs''], []),
      (''left-pad'', [], [''leftPad'', ''LeftPad'']),
      (''/proj/a.js'', [], [''b'', ''a'', ''A''])]
   \<and> set (derivedIdents pkgRegexSpec ''left-pad'') \<subseteq> set [''leftPad'', ''LeftPad'']
   \<and> set (derivedIdents pkgRegexSpec ''/proj/a.js'') \<subseteq> set [''b'', ''a'', ''A'']"
proof -
  let ?probe = "\<lambda>i. if i = ''/proj/node_modules/left-pad'' then Some ([''pad''], True)
            else if i = ''fs'' then Some ([''readFile''], False) else None"
  let ?before = "\<lambda>i. if i = ''fs'' then Some ([''readFile''], False) else None"
  let ?cache = "map_of (populate pkgRegexSpec ?before [''fs''] ''v8.0.0'' Map.empty None)"
  let ?project = "Some \<lparr>dir = ''/proj'',
              meta = \<lparr>devDependencies = [], dependencies = [(''left-pad'', ''1.3.0'')]\<rparr>,
              files = [\<lparr>filePath = ''/proj/a.js'', mtime = 7,
                        analysis = Some \<lparr>hasExports = True, exIdents = [''a''],
                                          exDefaults = [''b''], exProps = []\<rparr>\<rparr>]\<rparr>"
  have run: "populate pkgRegexSpec ?probe [''fs''] ''v8.0.0'' ?cache ?project
   = [(''fs'', \<lparr>version = VString ''v8.0.0'', idents = [''fs'', ''Fs''], defaults = [],
                 props = [''readFile'']\<rparr>),
      (''left-pad'', \<lparr>version = VString ''1.3.0'', idents = [],
                       defaults = [''leftPad'', ''LeftPad''], props = [''pad'']\<rparr>),
      (''/proj/a.js'', \<lparr>version = VNumber 7, idents = [], defaults = [''b'', ''a'', ''A''],
                         props = []\<rparr>)]"
    by (simp only: populate_first_run populate_second_run)
  have hyp: "written pkgRegexSpec ?cache"
    by (rule written_populate [OF written_empty])
  from populate_promoted [of pkgRegexSpec ?cache ?probe "[''fs'']" "''v8.0.0''" ?project] hyp
  have "\<forall>(i, e) \<in> set (populate pkgRegexSpec ?probe [''fs''] ''v8.0.0'' ?cache ?project).
         set (idents e) \<inter> set (defaults e) = {}
         \<and> (defaults e \<noteq> [] \<longrightarrow>
              idents e = [] \<and> set (derivedIdents pkgRegexSpec i) \<subseteq> set (defaults e))"
    by blast
  then show ?thesis
    unfolding run by simp
qed

section \<open>Properties of the import block composer\<close>

subsection \<open>The multiline fallback\<close>

lemma composeRequireStatement_props:
  "composeRequireStatement st i None None (Some names) multiline =
     Inr (requirePropsText st i (destructureText st names
            (multiline \<or> 80 < length (requirePropsText st i (destructureText st names False)))))"
proof (cases multiline)
  case True
  then show ?thesis
    by (simp add: composeRequireStatement.simps [of st i None None "Some names" True]
        truthy_def composeDestructure_def Let_def)
next
  case False
  have t: "composeRequireStatement st i None None (Some names) True =
     Inr (requirePropsText st i (destructureText st names True))"
    by (simp add: composeRequireStatement.simps [of st i None None "Some names" True]
        truthy_def composeDestructure_def Let_def)
  show ?thesis
    using False t
    by (simp add: composeRequireStatement.simps [of st i None None "Some names" False]
        truthy_def composeDestructure_def Let_def)
qed

lemma composeImportStatement_props:
  "composeImportStatement st i None def (Some (n # ns)) multiline =
     Inr (importText st i ((if truthy def then [the def] else [])
            @ [destructureText st (n # ns)
                 (multiline \<or> 80 < length (importText st i ((if truthy def then [the def] else [])
                      @ [destructureText st (n # ns) False])))]))"
proof (cases multiline)
  case True
  then show ?thesis
    by (simp add: composeImportStatement.simps [of st i None def "Some (n # ns)" True]
        truthy_def composeDestructure_def importParts_def Let_def)
next
  case False
  have t: "composeImportStatement st i None def (Some (n # ns)) True =
     Inr (importText st i ((if truthy def then [the def] else [])
            @ [destructureText st (n # ns) True]))"
    by (simp add: composeImportStatement.simps [of st i None def "Some (n # ns)" True]
        truthy_def composeDestructure_def importParts_def Let_def)
  show ?thesis
    using False t
    by (simp add: composeImportStatement.simps [of st i None def "Some (n # ns)" False]
        truthy_def composeDestructure_def importParts_def Let_def)
qed

lemma composeImportStatement_no_props:
  "composeImportStatement st i ident def None multiline =
     Inr (importText st i ((if truthy def then [the def] else [])
            @ (if truthy ident then [''* as '' @ the ident] else [])))"
  by (simp add: composeImportStatement.simps [of st i ident def None multiline]
        importParts_def Let_def)

lemma composeImportStatement_empty_props:
  "composeImportStatement st i ident def (Some []) multiline =
     Inr (importText st i ((if truthy def then [the def] else [])
            @ (if truthy ident then [''* as '' @ the ident] else [])))"
proof -
  have t: "composeImportStatement st i ident def (Some []) True =
     Inr (importText st i ((if truthy def then [the def] else [])
            @ (if truthy ident then [''* as '' @ the ident] else [])))"
    by (simp add: composeImportStatement.simps [of st i ident def "Some []" True]
        importParts_def Let_def)
  show ?thesis
  proof (cases multiline)
    case True
    then show ?thesis using t by simp
  next
    case False
    then show ?thesis using t
      by (simp add: composeImportStatement.simps [of st i ident def "Some []" False]
        importParts_def Let_def)
  qed
qed

text \<open>
  C6. A statement is emitted in multiline form (the destructure opened with a line break,
  one prop per line after the indentation, the trailing comma of the st) iff it has a
  props destructure and its single-line text is longer than 80 characters: that is the
  flag given to \<open>destructureText\<close> below. A statement for an ident or a default, and an
  import statement without props, is its single-line text whatever its length.
\<close>

theorem multiline_iff:
  "composeRequireStatement st i None None (Some names) False =
     Inr (requirePropsText st i (destructureText st names
            (80 < length (requirePropsText st i (destructureText st names False)))))
   \<and> composeRequireStatement st i (Some (c # cs)) None None False =
       Inr (requireIdentText st i (c # cs))
   \<and> composeRequireStatement st i None (Some (c # cs)) None False =
       Inr (requireDefaultText st i (c # cs))
   \<and> composeImportStatement st i None def (Some (n # ns)) False =
       Inr (importText st i ((if truthy def then [the def] else [])
            @ [destructureText st (n # ns)
                 (80 < length (importText st i ((if truthy def then [the def] else [])
                      @ [destructureText st (n # ns) False])))]))
   \<and> composeImportStatement st i ident def None False =
       Inr (importText st i ((if truthy def then [the def] else [])
            @ (if truthy ident then [''* as '' @ the ident] else [])))
   \<and> composeImportStatement st i ident def (Some []) False =
       Inr (importText st i ((if truthy def then [the def] else [])
            @ (if truthy ident then [''* as '' @ the ident] else [])))
   \<and> destructureText st names True =
       ''{'' @ newline @ tab st @ join ('','' @ newline @ tab st) names @ trailingComma st
         @ newline @ ''}''
   \<and> destructureText st names False = ''{ '' @ join '', '' names @ '' }''"
  using composeRequireStatement_props [of st i names False]
    composeImportStatement_props [of st i "def" n ns False]
    composeImportStatement_no_props [of st i ident "def" False]
    composeImportStatement_empty_props [of st i ident "def" False]
  by (simp add: composeRequireStatement.simps [of st i "Some (c # cs)" None None False]
      composeRequireStatement.simps [of st i None "Some (c # cs)" None False]
      truthy_def destructureText_def)


theorem multiline_iff_witness:
  \<open>composeRequireStatement requireStyle ''mod'' None None
      (Some [''aaa'', ''bbb'', ''ccc'', ''dddddddddd'', ''eeeeeeeeee'', ''ffffffffff'', ''gggg'']) False
    = Inr (''const {'' @ newline @ ''  aaa,'' @ newline @ ''  bbb,'' @ newline @ ''  ccc,'' @ newline
           @ ''  dddddddddd,'' @ newline @ ''  eeeeeeeeee,'' @ newline @ ''  ffffffffff,'' @ newline
           @ ''  gggg,'' @ newline @ ''} = require("mod");'')
   \<and> composeRequireStatement requireStyle ''mod'' None None
      (Some [''aaa'', ''bbb'', ''ccc'', ''dddddddddd'', ''eeeeeeeeee'', ''ffffffffff'']) False
    = Inr ''const { aaa, bbb, ccc, dddddddddd, eeeeeeeeee, ffffffffff } = require("mod");''
   \<and> length ''const { aaa, bbb, ccc, dddddddddd, eeeeeeeeee, ffffffffff } = require("mod");'' = 77\<close>
proof -
  let ?long = "[''aaa'', ''bbb'', ''ccc'', ''dddddddddd'', ''eeeeeeeeee'', ''ffffffffff'', ''gggg'']"
  let ?short = "[''aaa'', ''bbb'', ''ccc'', ''dddddddddd'', ''eeeeeeeeee'', ''ffffffffff'']"
  have "composeRequireStatement requireStyle ''mod'' None None (Some ?long) False =
     Inr (requirePropsText requireStyle ''mod'' (destructureText requireStyle ?long
            (80 < length (requirePropsText requireStyle ''mod''
                            (destructureText requireStyle ?long False)))))"
    using multiline_iff [of requireStyle "''mod''" ?long] by (rule conjunct1)
  moreover have "composeRequireStatement requireStyle ''mod'' None None (Some ?short) False =
     Inr (requirePropsText requireStyle ''mod'' (destructureText requireStyle ?short
            (80 < length (requirePropsText requireStyle ''mod''
                            (destructureText requireStyle ?short False)))))"
    using multiline_iff [of requireStyle "''mod''" ?short] by (rule conjunct1)
  ultimately show ?thesis
    by (simp add: requirePropsText_def destructureText_def requireText_def requireStyle_def
        newline_def)
qed

subsection \<open>Grouping and sorting\<close>

















section \<open>Properties of the source rewriter\<close>

subsection \<open>The end of the rewritten text\<close>

lemma suffix_iff_drop: "suffix t s \<longleftrightarrow> drop (length s - length t) s = t"
proof
  assume "suffix t s"
  then obtain p where "s = p @ t" by (auto simp: suffix_def)
  then show "drop (length s - length t) s = t" by simp
next
  assume "drop (length s - length t) s = t"
  then have "s = take (length s - length t) s @ t"
    by (metis append_take_drop_id)
  then show "suffix t s" by (metis suffixI)
qed

lemma endWithNewline_cases:
  "endWithNewline s =
     (if \<not> suffix newline s then s @ newline
      else if suffix (newline @ newline) s then butlast s
      else s)"
  using suffix_iff_drop [of newline s] suffix_iff_drop [of "newline @ newline" s]
  by (simp add: endWithNewline_def newline_def numeral_2_eq_2)

lemma endWithNewline_suffix: "suffix newline (endWithNewline s)"
proof (cases "suffix (newline @ newline) s")
  case True
  then obtain p where "s = p @ newline @ newline" by (auto simp: suffix_def)
  then have "s = (p @ newline) @ newline" "butlast s = p @ newline"
    by (simp_all add: newline_def butlast_append)
  then show ?thesis
    using True by (auto simp: endWithNewline_cases suffix_def)
next
  case False
  then show ?thesis by (auto simp: endWithNewline_cases suffix_def)
qed

lemma endWithNewline_double:
  "suffix (newline @ newline) (endWithNewline s) \<longleftrightarrow> suffix (newline @ newline @ newline) s"
proof (cases "suffix newline s")
  case False
  then have "\<not> suffix (newline @ newline @ newline) s"
    by (auto simp: suffix_def)
  moreover have "\<not> suffix (newline @ newline) (s @ newline)"
    using False by (auto simp: suffix_def newline_def append_eq_append_conv2 Cons_eq_append_conv append_eq_Cons_conv)
  ultimately show ?thesis using False by (simp add: endWithNewline_cases)
next
  case True
  show ?thesis
  proof (cases "suffix (newline @ newline) s")
    case False
    then have "\<not> suffix (newline @ newline @ newline) s" by (auto simp: suffix_def)
    then show ?thesis using True False by (simp add: endWithNewline_cases)
  next
    case dbl: True
    then obtain p where p: "s = p @ newline @ newline" by (auto simp: suffix_def)
    then have b: "butlast s = p @ newline" by (simp add: newline_def butlast_append)
    have "suffix (newline @ newline) (p @ newline) \<longleftrightarrow> suffix (newline @ newline @ newline) (p @ newline @ newline)"
      by (auto simp: suffix_def newline_def append_eq_append_conv2 Cons_eq_append_conv append_eq_Cons_conv)
    then show ?thesis using True dbl p b by (simp add: endWithNewline_cases)
  qed
qed


lemma not_suffix_double:
  "t \<noteq> [] \<Longrightarrow> last t \<noteq> CHR 0x0A \<Longrightarrow> \<not> suffix (newline @ newline) (pre @ t @ newline)"
proof
  assume t: "t \<noteq> []" "last t \<noteq> CHR 0x0A"
  assume "suffix (newline @ newline) (pre @ t @ newline)"
  then obtain p where "pre @ t @ newline = p @ newline @ newline"
    by (auto simp: suffix_def)
  then have "(pre @ t) @ [CHR 0x0A] = (p @ [CHR 0x0A]) @ [CHR 0x0A]"
    by (simp add: newline_def)
  then have "pre @ t = p @ [CHR 0x0A]" by (simp only: append1_eq_conv)
  then have "last (pre @ t) = CHR 0x0A" by (metis last_snoc)
  with t show False by simp
qed

lemma endWithNewline_one:
  assumes "t \<noteq> []" "last t \<noteq> CHR 0x0A"
  shows "endWithNewline (pre @ t @ newline) = pre @ t @ newline"
  using not_suffix_double [OF assms, of pre]
  by (simp add: endWithNewline_cases suffix_def)

lemma endWithNewline_two:
  assumes "t \<noteq> []" "last t \<noteq> CHR 0x0A"
  shows "endWithNewline (pre @ t @ newline @ newline) = pre @ t @ newline"
proof -
  have a: "suffix newline (pre @ t @ newline @ newline)"
    by (metis append_assoc suffixI)
  have b: "suffix (newline @ newline) (pre @ t @ newline @ newline)"
    by (metis append_assoc suffixI)
  have "pre @ t @ newline @ newline = (pre @ t @ newline) @ [CHR 0x0A]"
    by (simp add: newline_def)
  then have "butlast (pre @ t @ newline @ newline) = pre @ t @ newline"
    by (simp only: butlast_snoc)
  with a b show ?thesis by (simp add: endWithNewline_cases)
qed

lemma endWithNewline_three:
  "endWithNewline (pre @ newline @ newline @ newline) = pre @ newline @ newline"
proof -
  have a: "suffix newline (pre @ newline @ newline @ newline)"
    by (metis append_assoc suffixI)
  have b: "suffix (newline @ newline) (pre @ newline @ newline @ newline)"
    by (metis append_assoc suffixI)
  have "pre @ newline @ newline @ newline = (pre @ newline @ newline) @ [CHR 0x0A]"
    by (simp add: newline_def)
  then have "butlast (pre @ newline @ newline @ newline) = pre @ newline @ newline"
    by (simp only: butlast_snoc)
  with a b show ?thesis by (simp add: endWithNewline_cases)
qed

text \<open>The last pieces of a text put together line by line.\<close>

lemma concat_last:
  "\<exists>pre. concat (map f [0 ..< Suc n]) = pre @ f n"
  by simp

lemma concat_last_two:
  "1 \<le> n \<Longrightarrow> \<exists>pre. concat (map f [0 ..< Suc n]) = pre @ f (n - 1) @ f n"
  by (cases n) simp_all

lemma concat_last_three:
  "2 \<le> n \<Longrightarrow> \<exists>pre. concat (map f [0 ..< Suc n]) = pre @ f (n - 2) @ f (n - 1) @ f n"
proof -
  assume "2 \<le> n"
  then obtain m where "n = Suc (Suc m)"
    by (metis Suc_le_D numeral_2_eq_2 Suc_le_mono)
  then show ?thesis by simp
qed

lemma emitLine_kept:
  "1 \<le> n \<Longrightarrow> n \<le> length ts \<Longrightarrow> n \<notin> set removed \<Longrightarrow> target \<noteq> Some n \<Longrightarrow>
   emitLine ts (addLine 0 removed) target block n = ts ! (n - 1) @ newline"
  by (auto simp: emitLine_def getLineText_def toString_def addLine_def)

lemma emitLine_root_kept:
  "1 \<le> n \<Longrightarrow> n \<notin> set removed \<Longrightarrow> target \<noteq> n \<Longrightarrow>
   emitLine_root ([] # ls) (addLine 0 removed) target block h n = ls ! (n - 1) @ newline"
  by (cases n) (auto simp: emitLine_root_def addLine_def)

text \<open>How a text ends that was put together from kept lines, after \<open>endWithNewline\<close>.\<close>

lemma ends_one:
  assumes "newCode = pre @ t @ newline" "t \<noteq> []" "last t \<noteq> CHR 0x0A"
  shows "suffix newline (endWithNewline newCode)
         \<and> \<not> suffix (newline @ newline) (endWithNewline newCode)"
proof -
  have "suffix newline (pre @ t @ newline)" by (metis append_assoc suffixI)
  then show ?thesis
    using assms not_suffix_double [of t pre] endWithNewline_one [of t pre] by simp
qed

lemma ends_one_blank:
  assumes "newCode = pre @ (t @ newline) @ [] @ newline" "t \<noteq> []" "last t \<noteq> CHR 0x0A"
  shows "suffix newline (endWithNewline newCode)
         \<and> \<not> suffix (newline @ newline) (endWithNewline newCode)"
proof -
  have "suffix newline (pre @ t @ newline)" by (metis append_assoc suffixI)
  then show ?thesis
    using assms not_suffix_double [of t pre] endWithNewline_two [of t pre] by simp
qed

lemma ends_two:
  assumes "newCode = pre @ (x @ newline) @ ([] @ newline) @ [] @ newline"
  shows "suffix (newline @ newline) (endWithNewline newCode)"
proof -
  have "newCode = (pre @ x) @ newline @ newline @ newline"
    using assms by simp
  then have "endWithNewline newCode = (pre @ x) @ newline @ newline"
    by (simp only: endWithNewline_three)
  then show ?thesis by (metis suffixI)
qed

lemma placeRequires_length:
  "placeRequires ctx block = Inr (block', target, ts) \<Longrightarrow> length ts = length (textLines ctx)"
  by (auto simp: placeRequires_def Let_def split: list.splits option.splits if_splits)

lemma placeRequires_lines:
  "placeRequires ctx block = Inr (block', target, ts) \<Longrightarrow>
   reqs ctx \<noteq> [] \<or> block = [] \<or> useStrict ctx = None
     \<or> (\<exists>directive. useStrict ctx = Some directive \<and> endsLine ctx directive) \<Longrightarrow>
   ts = textLines ctx"
  by (auto simp: placeRequires_def Let_def split: list.splits option.splits if_splits)

lemma rewriteCode_emitLines:
  "resolveIdents whiteRegex ctx deps = Inr (libs, removed) \<Longrightarrow>
   composeRequires relative fileRegex (style ctx) d libs = Inr block \<Longrightarrow>
   placeRequires ctx block = Inr (block', target, ts) \<Longrightarrow>
   rewriteCode relative fileRegex whiteRegex ctx deps d
     = Inr (endWithNewline (concat (map (emitLine ts (addLine 0 removed) target block')
                                      [0 ..< Suc (length ts)])))"
  by (simp add: rewriteCode_def assemble_def emitLines_def)

lemma rewriteCode_root_emitLines:
  "resolveIdents_root missingIdents deps rs = Inr (libs, removed) \<Longrightarrow>
   composeRequires_root pkgRegex relative st libs d = Inr block \<Longrightarrow>
   addRequiresLine rs = Inr target \<Longrightarrow>
   rewriteCode_root pkgRegex relative st ls rs missingIdents deps d
     = Inr (endWithNewline (concat (map (emitLine_root ([] # ls) (addLine 0 removed) target block
                                           (length rs > 0))
                                      [0 ..< Suc (length ls)])))"
  by (simp add: rewriteCode_root_def assemble_root_def Let_def)

lemma rewriteCode_last_line:
  assumes "resolveIdents whiteRegex ctx deps = Inr (libs, removed)"
    and "composeRequires relative fileRegex (style ctx) d libs = Inr block"
    and "placeRequires ctx block = Inr (block', target, ts)"
    and "ts \<noteq> []" "length ts \<notin> set removed" "target \<noteq> Some (length ts)"
    and "last ts \<noteq> []" "last (last ts) \<noteq> CHR 0x0A"
  shows "\<exists>out. rewriteCode relative fileRegex whiteRegex ctx deps d = Inr out
           \<and> suffix newline out \<and> \<not> suffix (newline @ newline) out"
proof -
  let ?f = "emitLine ts (addLine 0 removed) target block'"
  have "?f (length ts) = last ts @ newline"
    using assms(4-6) by (simp add: emitLine_kept last_conv_nth Suc_leI)
  with concat_last [of ?f "length ts"]
  obtain pre where "concat (map ?f [0 ..< Suc (length ts)]) = pre @ last ts @ newline"
    by auto
  from ends_one [OF this assms(7,8)] rewriteCode_emitLines [OF assms(1-3)]
  show ?thesis by simp
qed

lemma rewriteCode_last_blank:
  assumes "resolveIdents whiteRegex ctx deps = Inr (libs, removed)"
    and "composeRequires relative fileRegex (style ctx) d libs = Inr block"
    and "placeRequires ctx block = Inr (block', target, ts)"
    and "2 \<le> length ts" "last ts = []"
    and "length ts \<notin> set removed" "target \<noteq> Some (length ts)"
    and "length ts - 1 \<notin> set removed" "target \<noteq> Some (length ts - 1)"
    and "ts ! (length ts - 2) \<noteq> []" "last (ts ! (length ts - 2)) \<noteq> CHR 0x0A"
  shows "\<exists>out. rewriteCode relative fileRegex whiteRegex ctx deps d = Inr out
           \<and> suffix newline out \<and> \<not> suffix (newline @ newline) out"
proof -
  let ?f = "emitLine ts (addLine 0 removed) target block'"
  have ne: "ts \<noteq> []" using assms(4) by auto
  have i1: "1 \<le> length ts - 1" "length ts - 1 \<le> length ts" "length ts - 1 - 1 = length ts - 2"
    using assms(4) by arith+
  have a: "?f (length ts) = [] @ newline"
    using assms(4-7) ne emitLine_kept [of "length ts" ts removed target block']
    by (simp add: last_conv_nth)
  have b: "?f (length ts - 1) = ts ! (length ts - 2) @ newline"
    using assms(4,8,9) emitLine_kept [of "length ts - 1" ts removed target block'] i1
    by simp
  from concat_last_two [of "length ts" ?f] assms(4)
  obtain pre where "concat (map ?f [0 ..< Suc (length ts)])
      = pre @ (ts ! (length ts - 2) @ newline) @ [] @ newline"
    unfolding a b by auto
  from ends_one_blank [OF this assms(10,11)] rewriteCode_emitLines [OF assms(1-3)]
  show ?thesis by simp
qed

lemma rewriteCode_last_blanks:
  assumes "resolveIdents whiteRegex ctx deps = Inr (libs, removed)"
    and "composeRequires relative fileRegex (style ctx) d libs = Inr block"
    and "placeRequires ctx block = Inr (block', target, ts)"
    and "3 \<le> length ts" "last ts = []" "ts ! (length ts - 2) = []"
    and "length ts \<notin> set removed" "target \<noteq> Some (length ts)"
    and "length ts - 1 \<notin> set removed" "target \<noteq> Some (length ts - 1)"
    and "length ts - 2 \<notin> set removed" "target \<noteq> Some (length ts - 2)"
  shows "\<exists>out. rewriteCode relative fileRegex whiteRegex ctx deps d = Inr out
           \<and> suffix (newline @ newline) out"
proof -
  let ?f = "emitLine ts (addLine 0 removed) target block'"
  have ne: "ts \<noteq> []" using assms(4) by auto
  have i1: "1 \<le> length ts - 1" "length ts - 1 \<le> length ts" "length ts - 1 - 1 = length ts - 2"
    using assms(4) by arith+
  have a: "?f (length ts) = [] @ newline"
    using assms(4,5,7,8) ne emitLine_kept [of "length ts" ts removed target block']
    by (simp add: last_conv_nth)
  have b: "?f (length ts - 1) = [] @ newline"
    using assms(4,6,9,10) emitLine_kept [of "length ts - 1" ts removed target block'] i1
    by simp
  have i2: "1 \<le> length ts - 2" "length ts - 2 \<le> length ts" "length ts - 2 - 1 = length ts - 3"
    using assms(4) by arith+
  have c: "?f (length ts - 2) = ts ! (length ts - 3) @ newline"
    using assms(4,11,12) emitLine_kept [of "length ts - 2" ts removed target block'] i2
    by simp
  from concat_last_three [of "length ts" ?f] assms(4)
  obtain pre where "concat (map ?f [0 ..< Suc (length ts)])
      = pre @ (ts ! (length ts - 3) @ newline) @ ([] @ newline) @ [] @ newline"
    unfolding a b c by auto
  from ends_two [OF this] rewriteCode_emitLines [OF assms(1-3)]
  show ?thesis by simp
qed

lemma rewriteCode_root_last_line:
  assumes "resolveIdents_root missingIdents deps rs = Inr (libs, removed)"
    and "composeRequires_root pkgRegex relative st libs d = Inr block"
    and "addRequiresLine rs = Inr target"
    and "ls \<noteq> []" "length ls \<notin> set removed" "target \<noteq> length ls"
    and "last ls \<noteq> []" "last (last ls) \<noteq> CHR 0x0A"
  shows "\<exists>out. rewriteCode_root pkgRegex relative st ls rs missingIdents deps d = Inr out
           \<and> suffix newline out \<and> \<not> suffix (newline @ newline) out"
proof -
  let ?f = "emitLine_root ([] # ls) (addLine 0 removed) target block (length rs > 0)"
  have "?f (length ls) = last ls @ newline"
    using assms(4-6) emitLine_root_kept [of "length ls" removed target ls block "length rs > 0"]
    by (simp add: last_conv_nth Suc_leI)
  with concat_last [of ?f "length ls"]
  obtain pre where "concat (map ?f [0 ..< Suc (length ls)]) = pre @ last ls @ newline"
    by auto
  from ends_one [OF this assms(7,8)] rewriteCode_root_emitLines [OF assms(1-3)]
  show ?thesis by simp
qed

lemma rewriteCode_root_last_blank:
  assumes "resolveIdents_root missingIdents deps rs = Inr (libs, removed)"
    and "composeRequires_root pkgRegex relative st libs d = Inr block"
    and "addRequiresLine rs = Inr target"
    and "2 \<le> length ls" "last ls = []"
    and "length ls \<notin> set removed" "target \<noteq> length ls"
    and "length ls - 1 \<notin> set removed" "target \<noteq> length ls - 1"
    and "ls ! (length ls - 2) \<noteq> []" "last (ls ! (length ls - 2)) \<noteq> CHR 0x0A"
  shows "\<exists>out. rewriteCode_root pkgRegex relative st ls rs missingIdents deps d = Inr out
           \<and> suffix newline out \<and> \<not> suffix (newline @ newline) out"
proof -
  let ?f = "emitLine_root ([] # ls) (addLine 0 removed) target block (length rs > 0)"
  have ne: "ls \<noteq> []" using assms(4) by auto
  have i1: "1 \<le> length ls - 1" "length ls - 1 \<le> length ls" "length ls - 1 - 1 = length ls - 2"
    using assms(4) by arith+
  have a: "?f (length ls) = [] @ newline"
    using assms(4-7) ne emitLine_root_kept [of "length ls" removed target ls block "length rs > 0"]
    by (simp add: last_conv_nth)
  have b: "?f (length ls - 1) = ls ! (length ls - 2) @ newline"
    using assms(4,8,9) emitLine_root_kept [of "length ls - 1" removed target ls block "length rs > 0"] i1
    by simp
  from concat_last_two [of "length ls" ?f] assms(4)
  obtain pre where "concat (map ?f [0 ..< Suc (length ls)])
      = pre @ (ls ! (length ls - 2) @ newline) @ [] @ newline"
    unfolding a b by auto
  from ends_one_blank [OF this assms(10,11)] rewriteCode_root_emitLines [OF assms(1-3)]
  show ?thesis by simp
qed

lemma rewriteCode_root_last_blanks:
  assumes "resolveIdents_root missingIdents deps rs = Inr (libs, removed)"
    and "composeRequires_root pkgRegex relative st libs d = Inr block"
    and "addRequiresLine rs = Inr target"
    and "3 \<le> length ls" "last ls = []" "ls ! (length ls - 2) = []"
    and "length ls \<notin> set removed" "target \<noteq> length ls"
    and "length ls - 1 \<notin> set removed" "target \<noteq> length ls - 1"
    and "length ls - 2 \<notin> set removed" "target \<noteq> length ls - 2"
  shows "\<exists>out. rewriteCode_root pkgRegex relative st ls rs missingIdents deps d = Inr out
           \<and> suffix (newline @ newline) out"
proof -
  let ?f = "emitLine_root ([] # ls) (addLine 0 removed) target block (length rs > 0)"
  have ne: "ls \<noteq> []" using assms(4) by auto
  have i1: "1 \<le> length ls - 1" "length ls - 1 \<le> length ls" "length ls - 1 - 1 = length ls - 2"
    using assms(4) by arith+
  have a: "?f (length ls) = [] @ newline"
    using assms(4,5,7,8) ne emitLine_root_kept [of "length ls" removed target ls block "length rs > 0"]
    by (simp add: last_conv_nth)
  have b: "?f (length ls - 1) = [] @ newline"
    using assms(4,6,9,10) emitLine_root_kept [of "length ls - 1" removed target ls block "length rs > 0"] i1
    by simp
  have i2: "1 \<le> length ls - 2" "length ls - 2 \<le> length ls" "length ls - 2 - 1 = length ls - 3"
    using assms(4) by arith+
  have c: "?f (length ls - 2) = ls ! (length ls - 3) @ newline"
    using assms(4,11,12) emitLine_root_kept [of "length ls - 2" removed target ls block "length rs > 0"] i2
    by simp
  from concat_last_three [of "length ls" ?f] assms(4)
  obtain pre where "concat (map ?f [0 ..< Suc (length ls)])
      = pre @ (ls ! (length ls - 3) @ newline) @ ([] @ newline) @ [] @ newline"
    unfolding a b c by auto
  from ends_two [OF this] rewriteCode_root_emitLines [OF assms(1-3)]
  show ?thesis by simp
qed

lemma resolveIdents_no_reqs:
  "reqs ctx = [] \<Longrightarrow> resolveIdents whiteRegex ctx deps = Inr (libs, removed) \<Longrightarrow> removed = []"
  by (auto simp: resolveIdents_def Let_def addLines_def removeExtraLines_def split: if_splits)

lemma placeRequires_target:
  assumes "placeRequires ctx block = Inr (block', target, ts)"
  shows "(\<forall>r rest n. reqs ctx = r # rest \<and> node r = Some n \<longrightarrow> target = Some (line (locStart n)))
     \<and> (reqs ctx = [] \<and> block = [] \<longrightarrow> target = None)
     \<and> (reqs ctx = [] \<and> block \<noteq> [] \<and> useStrict ctx = None \<longrightarrow> target = Some 0)
     \<and> (\<forall>directive. reqs ctx = [] \<and> block \<noteq> [] \<and> useStrict ctx = Some directive \<longrightarrow>
           target = (if endsLine ctx directive then Some (line (locEnd directive)) else None))"
  using assms
  by (auto simp: placeRequires_def Let_def split: list.splits option.splits if_splits)

lemma resolveIdents_root_no_reqs:
  "resolveIdents_root missingIdents deps [] = Inr (libs, removed) \<Longrightarrow> removed = []"
  by (auto simp: resolveIdents_root_def Let_def addLines_def split: if_splits)

lemma addRequiresLine_cases:
  "addRequiresLine rs = Inr target \<Longrightarrow>
   (rs = [] \<longrightarrow> target = 0)
   \<and> (\<forall>r rest n. rs = r # rest \<and> node r = Some n \<longrightarrow> target = line (locStart n))"
  by (auto simp: addRequiresLine_def split: list.splits option.splits)

text \<open>
  C7, as the code has it. The text that \<open>rewriteCode\<close> returns (in \<open>lib/importer.js\<close>
  and in \<open>importer.js\<close>) ends with a line break. Only one line break is taken away at
  the end: the returned text ends with two line breaks exactly when the text put together
  from the kept lines and the block ends with three. In terms of the lines, of the line
  numbers that \<open>resolveIdents\<close> removes and of the target line of the block (the lines
  are those of the input, but for a directive that shares its line): the returned text
  ends with exactly one line break when the last line is kept, is not the target, is not
  empty and does not end with a line break; also when the last line is empty and the line
  before it is not empty and does not end with a line break, both kept and neither the
  target; it ends with two line breaks when the last two lines are empty and the last
  three lines are kept and none is the target. The target is the first line of the first
  existing import; without imports it is line 0, or in \<open>lib/importer.js\<close> the line of
  a directive that ends its line, and there is none when the block is empty or the
  directive shares its line. Without imports no line is removed.
\<close>

theorem rewriteCode_ends_with_newline:
  "(rewriteCode relative fileRegex whiteRegex ctx deps d = Inr out \<longrightarrow>
      suffix newline out
      \<and> (\<exists>newCode. assemble relative fileRegex whiteRegex ctx deps d = Inr newCode
            \<and> (suffix (newline @ newline) out \<longleftrightarrow> suffix (newline @ newline @ newline) newCode)))
   \<and> (rewriteCode_root pkgRegex relative st ls rs missingIdents deps d = Inr out' \<longrightarrow>
      suffix newline out'
      \<and> (\<exists>newCode. assemble_root pkgRegex relative st ls rs missingIdents deps d = Inr newCode
            \<and> (suffix (newline @ newline) out' \<longleftrightarrow> suffix (newline @ newline @ newline) newCode)))
   \<and> (resolveIdents whiteRegex ctx deps = Inr (libs, removed)
       \<and> composeRequires relative fileRegex (style ctx) d libs = Inr block
       \<and> placeRequires ctx block = Inr (block', target, ts) \<longrightarrow>
         length ts = length (textLines ctx)
         \<and> (reqs ctx \<noteq> [] \<or> block = [] \<or> useStrict ctx = None
              \<or> (\<exists>directive. useStrict ctx = Some directive \<and> endsLine ctx directive) \<longrightarrow>
             ts = textLines ctx)
         \<and> (\<forall>r rest n. reqs ctx = r # rest \<and> node r = Some n \<longrightarrow> target = Some (line (locStart n)))
         \<and> (reqs ctx = [] \<and> block = [] \<longrightarrow> target = None)
         \<and> (reqs ctx = [] \<and> block \<noteq> [] \<and> useStrict ctx = None \<longrightarrow> target = Some 0)
         \<and> (\<forall>directive. reqs ctx = [] \<and> block \<noteq> [] \<and> useStrict ctx = Some directive \<longrightarrow>
             target = (if endsLine ctx directive then Some (line (locEnd directive)) else None))
         \<and> (reqs ctx = [] \<longrightarrow> removed = [])
         \<and> (ts \<noteq> [] \<and> length ts \<notin> set removed \<and> target \<noteq> Some (length ts)
              \<and> last ts \<noteq> [] \<and> last (last ts) \<noteq> CHR 0x0A \<longrightarrow>
             (\<exists>res. rewriteCode relative fileRegex whiteRegex ctx deps d = Inr res
                \<and> suffix newline res \<and> \<not> suffix (newline @ newline) res))
         \<and> (2 \<le> length ts \<and> last ts = []
              \<and> length ts \<notin> set removed \<and> target \<noteq> Some (length ts)
              \<and> length ts - 1 \<notin> set removed \<and> target \<noteq> Some (length ts - 1)
              \<and> ts ! (length ts - 2) \<noteq> [] \<and> last (ts ! (length ts - 2)) \<noteq> CHR 0x0A \<longrightarrow>
             (\<exists>res. rewriteCode relative fileRegex whiteRegex ctx deps d = Inr res
                \<and> suffix newline res \<and> \<not> suffix (newline @ newline) res))
         \<and> (3 \<le> length ts \<and> last ts = [] \<and> ts ! (length ts - 2) = []
              \<and> length ts \<notin> set removed \<and> target \<noteq> Some (length ts)
              \<and> length ts - 1 \<notin> set removed \<and> target \<noteq> Some (length ts - 1)
              \<and> length ts - 2 \<notin> set removed \<and> target \<noteq> Some (length ts - 2) \<longrightarrow>
             (\<exists>res. rewriteCode relative fileRegex whiteRegex ctx deps d = Inr res
                \<and> suffix (newline @ newline) res)))
   \<and> (resolveIdents_root missingIdents deps rs = Inr (libs', removed')
       \<and> composeRequires_root pkgRegex relative st libs' d = Inr block''
       \<and> addRequiresLine rs = Inr target' \<longrightarrow>
         (rs = [] \<longrightarrow> target' = 0 \<and> removed' = [])
         \<and> (\<forall>r rest n. rs = r # rest \<and> node r = Some n \<longrightarrow> target' = line (locStart n))
         \<and> (ls \<noteq> [] \<and> length ls \<notin> set removed' \<and> target' \<noteq> length ls
              \<and> last ls \<noteq> [] \<and> last (last ls) \<noteq> CHR 0x0A \<longrightarrow>
             (\<exists>res. rewriteCode_root pkgRegex relative st ls rs missingIdents deps d = Inr res
                \<and> suffix newline res \<and> \<not> suffix (newline @ newline) res))
         \<and> (2 \<le> length ls \<and> last ls = []
              \<and> length ls \<notin> set removed' \<and> target' \<noteq> length ls
              \<and> length ls - 1 \<notin> set removed' \<and> target' \<noteq> length ls - 1
              \<and> ls ! (length ls - 2) \<noteq> [] \<and> last (ls ! (length ls - 2)) \<noteq> CHR 0x0A \<longrightarrow>
             (\<exists>res. rewriteCode_root pkgRegex relative st ls rs missingIdents deps d = Inr res
                \<and> suffix newline res \<and> \<not> suffix (newline @ newline) res))
         \<and> (3 \<le> length ls \<and> last ls = [] \<and> ls ! (length ls - 2) = []
              \<and> length ls \<notin> set removed' \<and> target' \<noteq> length ls
              \<and> length ls - 1 \<notin> set removed' \<and> target' \<noteq> length ls - 1
              \<and> length ls - 2 \<notin> set removed' \<and> target' \<noteq> length ls - 2 \<longrightarrow>
             (\<exists>res. rewriteCode_root pkgRegex relative st ls rs missingIdents deps d = Inr res
                \<and> suffix (newline @ newline) res)))"
proof -
  have a: "rewriteCode relative fileRegex whiteRegex ctx deps d = Inr out \<longrightarrow>
      suffix newline out
      \<and> (\<exists>newCode. assemble relative fileRegex whiteRegex ctx deps d = Inr newCode
            \<and> (suffix (newline @ newline) out \<longleftrightarrow> suffix (newline @ newline @ newline) newCode))"
    by (auto simp: rewriteCode_def endWithNewline_suffix endWithNewline_double split: sum.splits)
  have b: "rewriteCode_root pkgRegex relative st ls rs missingIdents deps d = Inr out' \<longrightarrow>
      suffix newline out'
      \<and> (\<exists>newCode. assemble_root pkgRegex relative st ls rs missingIdents deps d = Inr newCode
            \<and> (suffix (newline @ newline) out' \<longleftrightarrow> suffix (newline @ newline @ newline) newCode))"
    by (auto simp: rewriteCode_root_def endWithNewline_suffix endWithNewline_double split: sum.splits)
  have c1: "resolveIdents whiteRegex ctx deps = Inr (libs, removed)
       \<and> composeRequires relative fileRegex (style ctx) d libs = Inr block
       \<and> placeRequires ctx block = Inr (block', target, ts) \<longrightarrow>
         length ts = length (textLines ctx)"
    using placeRequires_length [of ctx block block' target ts]
    by blast
  have c2: "resolveIdents whiteRegex ctx deps = Inr (libs, removed)
       \<and> composeRequires relative fileRegex (style ctx) d libs = Inr block
       \<and> placeRequires ctx block = Inr (block', target, ts) \<longrightarrow>
         (reqs ctx \<noteq> [] \<or> block = [] \<or> useStrict ctx = None
              \<or> (\<exists>directive. useStrict ctx = Some directive \<and> endsLine ctx directive) \<longrightarrow>
             ts = textLines ctx)"
    using placeRequires_lines [of ctx block block' target ts]
    by blast
  have c3: "resolveIdents whiteRegex ctx deps = Inr (libs, removed)
       \<and> composeRequires relative fileRegex (style ctx) d libs = Inr block
       \<and> placeRequires ctx block = Inr (block', target, ts) \<longrightarrow>
         (\<forall>r rest n. reqs ctx = r # rest \<and> node r = Some n \<longrightarrow> target = Some (line (locStart n)))"
    using placeRequires_target [of ctx block block' target ts]
    by blast
  have c4: "resolveIdents whiteRegex ctx deps = Inr (libs, removed)
       \<and> composeRequires relative fileRegex (style ctx) d libs = Inr block
       \<and> placeRequires ctx block = Inr (block', target, ts) \<longrightarrow>
         (reqs ctx = [] \<and> block = [] \<longrightarrow> target = None)"
    using placeRequires_target [of ctx block block' target ts]
    by blast
  have c5: "resolveIdents whiteRegex ctx deps = Inr (libs, removed)
       \<and> composeRequires relative fileRegex (style ctx) d libs = Inr block
       \<and> placeRequires ctx block = Inr (block', target, ts) \<longrightarrow>
         (reqs ctx = [] \<and> block \<noteq> [] \<and> useStrict ctx = None \<longrightarrow> target = Some 0)"
    using placeRequires_target [of ctx block block' target ts]
    by blast
  have c6: "resolveIdents whiteRegex ctx deps = Inr (libs, removed)
       \<and> composeRequires relative fileRegex (style ctx) d libs = Inr block
       \<and> placeRequires ctx block = Inr (block', target, ts) \<longrightarrow>
         (\<forall>directive. reqs ctx = [] \<and> block \<noteq> [] \<and> useStrict ctx = Some directive \<longrightarrow>
             target = (if endsLine ctx directive then Some (line (locEnd directive)) else None))"
    using placeRequires_target [of ctx block block' target ts]
    by blast
  have c7: "resolveIdents whiteRegex ctx deps = Inr (libs, removed)
       \<and> composeRequires relative fileRegex (style ctx) d libs = Inr block
       \<and> placeRequires ctx block = Inr (block', target, ts) \<longrightarrow>
         (reqs ctx = [] \<longrightarrow> removed = [])"
    using resolveIdents_no_reqs [of ctx whiteRegex deps libs removed]
    by blast
  have c8: "resolveIdents whiteRegex ctx deps = Inr (libs, removed)
       \<and> composeRequires relative fileRegex (style ctx) d libs = Inr block
       \<and> placeRequires ctx block = Inr (block', target, ts) \<longrightarrow>
         (ts \<noteq> [] \<and> length ts \<notin> set removed \<and> target \<noteq> Some (length ts)
              \<and> last ts \<noteq> [] \<and> last (last ts) \<noteq> CHR 0x0A \<longrightarrow>
             (\<exists>res. rewriteCode relative fileRegex whiteRegex ctx deps d = Inr res
                \<and> suffix newline res \<and> \<not> suffix (newline @ newline) res))"
    using rewriteCode_last_line [of whiteRegex ctx deps libs removed relative fileRegex d block block' target ts]
    by blast
  have c9: "resolveIdents whiteRegex ctx deps = Inr (libs, removed)
       \<and> composeRequires relative fileRegex (style ctx) d libs = Inr block
       \<and> placeRequires ctx block = Inr (block', target, ts) \<longrightarrow>
         (2 \<le> length ts \<and> last ts = []
              \<and> length ts \<notin> set removed \<and> target \<noteq> Some (length ts)
              \<and> length ts - 1 \<notin> set removed \<and> target \<noteq> Some (length ts - 1)
              \<and> ts ! (length ts - 2) \<noteq> [] \<and> last (ts ! (length ts - 2)) \<noteq> CHR 0x0A \<longrightarrow>
             (\<exists>res. rewriteCode relative fileRegex whiteRegex ctx deps d = Inr res
                \<and> suffix newline res \<and> \<not> suffix (newline @ newline) res))"
    using rewriteCode_last_blank [of whiteRegex ctx deps libs removed relative fileRegex d block block' target ts]
    by blast
  have c10: "resolveIdents whiteRegex ctx deps = Inr (libs, removed)
       \<and> composeRequires relative fileRegex (style ctx) d libs = Inr block
       \<and> placeRequires ctx block = Inr (block', target, ts) \<longrightarrow>
         (3 \<le> length ts \<and> last ts = [] \<and> ts ! (length ts - 2) = []
              \<and> length ts \<notin> set removed \<and> target \<noteq> Some (length ts)
              \<and> length ts - 1 \<notin> set removed \<and> target \<noteq> Some (length ts - 1)
              \<and> length ts - 2 \<notin> set removed \<and> target \<noteq> Some (length ts - 2) \<longrightarrow>
             (\<exists>res. rewriteCode relative fileRegex whiteRegex ctx deps d = Inr res
                \<and> suffix (newline @ newline) res))"
    using rewriteCode_last_blanks [of whiteRegex ctx deps libs removed relative fileRegex d block block' target ts]
    by blast
  have d1: "resolveIdents_root missingIdents deps rs = Inr (libs', removed')
       \<and> composeRequires_root pkgRegex relative st libs' d = Inr block''
       \<and> addRequiresLine rs = Inr target' \<longrightarrow>
         (rs = [] \<longrightarrow> target' = 0 \<and> removed' = [])"
    using addRequiresLine_cases [of rs target'] resolveIdents_root_no_reqs [of missingIdents deps libs' removed']
    by blast
  have d2: "resolveIdents_root missingIdents deps rs = Inr (libs', removed')
       \<and> composeRequires_root pkgRegex relative st libs' d = Inr block''
       \<and> addRequiresLine rs = Inr target' \<longrightarrow>
         (\<forall>r rest n. rs = r # rest \<and> node r = Some n \<longrightarrow> target' = line (locStart n))"
    using addRequiresLine_cases [of rs target']
    by blast
  have d3: "resolveIdents_root missingIdents deps rs = Inr (libs', removed')
       \<and> composeRequires_root pkgRegex relative st libs' d = Inr block''
       \<and> addRequiresLine rs = Inr target' \<longrightarrow>
         (ls \<noteq> [] \<and> length ls \<notin> set removed' \<and> target' \<noteq> length ls
              \<and> last ls \<noteq> [] \<and> last (last ls) \<noteq> CHR 0x0A \<longrightarrow>
             (\<exists>res. rewriteCode_root pkgRegex relative st ls rs missingIdents deps d = Inr res
                \<and> suffix newline res \<and> \<not> suffix (newline @ newline) res))"
    using rewriteCode_root_last_line [of missingIdents deps rs libs' removed' pkgRegex relative st d block'' target' ls]
    by blast
  have d4: "resolveIdents_root missingIdents deps rs = Inr (libs', removed')
       \<and> composeRequires_root pkgRegex relative st libs' d = Inr block''
       \<and> addRequiresLine rs = Inr target' \<longrightarrow>
         (2 \<le> length ls \<and> last ls = []
              \<and> length ls \<notin> set removed' \<and> target' \<noteq> length ls
              \<and> length ls - 1 \<notin> set removed' \<and> target' \<noteq> length ls - 1
              \<and> ls ! (length ls - 2) \<noteq> [] \<and> last (ls ! (length ls - 2)) \<noteq> CHR 0x0A \<longrightarrow>
             (\<exists>res. rewriteCode_root pkgRegex relative st ls rs missingIdents deps d = Inr res
                \<and> suffix newline res \<and> \<not> suffix (newline @ newline) res))"
    using rewriteCode_root_last_blank [of missingIdents deps rs libs' removed' pkgRegex relative st d block'' target' ls]
    by blast
  have d5: "resolveIdents_root missingIdents deps rs = Inr (libs', removed')
       \<and> composeRequires_root pkgRegex relative st libs' d = Inr block''
       \<and> addRequiresLine rs = Inr target' \<longrightarrow>
         (3 \<le> length ls \<and> last ls = [] \<and> ls ! (length ls - 2) = []
              \<and> length ls \<notin> set removed' \<and> target' \<noteq> length ls
              \<and> length ls - 1 \<notin> set removed' \<and> target' \<noteq> length ls - 1
              \<and> length ls - 2 \<notin> set removed' \<and> target' \<noteq> length ls - 2 \<longrightarrow>
             (\<exists>res. rewriteCode_root pkgRegex relative st ls rs missingIdents deps d = Inr res
                \<and> suffix (newline @ newline) res))"
    using rewriteCode_root_last_blanks [of missingIdents deps rs libs' removed' pkgRegex relative st d block'' target' ls]
    by blast
  have c: "resolveIdents whiteRegex ctx deps = Inr (libs, removed)
       \<and> composeRequires relative fileRegex (style ctx) d libs = Inr block
       \<and> placeRequires ctx block = Inr (block', target, ts) \<longrightarrow>
         length ts = length (textLines ctx)
         \<and> (reqs ctx \<noteq> [] \<or> block = [] \<or> useStrict ctx = None
              \<or> (\<exists>directive. useStrict ctx = Some directive \<and> endsLine ctx directive) \<longrightarrow>
             ts = textLines ctx)
         \<and> (\<forall>r rest n. reqs ctx = r # rest \<and> node r = Some n \<longrightarrow> target = Some (line (locStart n)))
         \<and> (reqs ctx = [] \<and> block = [] \<longrightarrow> target = None)
         \<and> (reqs ctx = [] \<and> block \<noteq> [] \<and> useStrict ctx = None \<longrightarrow> target = Some 0)
         \<and> (\<forall>directive. reqs ctx = [] \<and> block \<noteq> [] \<and> useStrict ctx = Some directive \<longrightarrow>
             target = (if endsLine ctx directive then Some (line (locEnd directive)) else None))
         \<and> (reqs ctx = [] \<longrightarrow> removed = [])
         \<and> (ts \<noteq> [] \<and> length ts \<notin> set removed \<and> target \<noteq> Some (length ts)
              \<and> last ts \<noteq> [] \<and> last (last ts) \<noteq> CHR 0x0A \<longrightarrow>
             (\<exists>res. rewriteCode relative fileRegex whiteRegex ctx deps d = Inr res
                \<and> suffix newline res \<and> \<not> suffix (newline @ newline) res))
         \<and> (2 \<le> length ts \<and> last ts = []
              \<and> length ts \<notin> set removed \<and> target \<noteq> Some (length ts)
              \<and> length ts - 1 \<notin> set removed \<and> target \<noteq> Some (length ts - 1)
              \<and> ts ! (length ts - 2) \<noteq> [] \<and> last (ts ! (length ts - 2)) \<noteq> CHR 0x0A \<longrightarrow>
             (\<exists>res. rewriteCode relative fileRegex whiteRegex ctx deps d = Inr res
                \<and> suffix newline res \<and> \<not> suffix (newline @ newline) res))
         \<and> (3 \<le> length ts \<and> last ts = [] \<and> ts ! (length ts - 2) = []
              \<and> length ts \<notin> set removed \<and> target \<noteq> Some (length ts)
              \<and> length ts - 1 \<notin> set removed \<and> target \<noteq> Some (length ts - 1)
              \<and> length ts - 2 \<notin> set removed \<and> target \<noteq> Some (length ts - 2) \<longrightarrow>
             (\<exists>res. rewriteCode relative fileRegex whiteRegex ctx deps d = Inr res
                \<and> suffix (newline @ newline) res))"
  proof (rule impI)
    assume h: "resolveIdents whiteRegex ctx deps = Inr (libs, removed)
       \<and> composeRequires relative fileRegex (style ctx) d libs = Inr block
       \<and> placeRequires ctx block = Inr (block', target, ts)"
    show "length ts = length (textLines ctx)
         \<and> (reqs ctx \<noteq> [] \<or> block = [] \<or> useStrict ctx = None
              \<or> (\<exists>directive. useStrict ctx = Some directive \<and> endsLine ctx directive) \<longrightarrow>
             ts = textLines ctx)
         \<and> (\<forall>r rest n. reqs ctx = r # rest \<and> node r = Some n \<longrightarrow> target = Some (line (locStart n)))
         \<and> (reqs ctx = [] \<and> block = [] \<longrightarrow> target = None)
         \<and> (reqs ctx = [] \<and> block \<noteq> [] \<and> useStrict ctx = None \<longrightarrow> target = Some 0)
         \<and> (\<forall>directive. reqs ctx = [] \<and> block \<noteq> [] \<and> useStrict ctx = Some directive \<longrightarrow>
             target = (if endsLine ctx directive then Some (line (locEnd directive)) else None))
         \<and> (reqs ctx = [] \<longrightarrow> removed = [])
         \<and> (ts \<noteq> [] \<and> length ts \<notin> set removed \<and> target \<noteq> Some (length ts)
              \<and> last ts \<noteq> [] \<and> last (last ts) \<noteq> CHR 0x0A \<longrightarrow>
             (\<exists>res. rewriteCode relative fileRegex whiteRegex ctx deps d = Inr res
                \<and> suffix newline res \<and> \<not> suffix (newline @ newline) res))
         \<and> (2 \<le> length ts \<and> last ts = []
              \<and> length ts \<notin> set removed \<and> target \<noteq> Some (length ts)
              \<and> length ts - 1 \<notin> set removed \<and> target \<noteq> Some (length ts - 1)
              \<and> ts ! (length ts - 2) \<noteq> [] \<and> last (ts ! (length ts - 2)) \<noteq> CHR 0x0A \<longrightarrow>
             (\<exists>res. rewriteCode relative fileRegex whiteRegex ctx deps d = Inr res
                \<and> suffix newline res \<and> \<not> suffix (newline @ newline) res))
         \<and> (3 \<le> length ts \<and> last ts = [] \<and> ts ! (length ts - 2) = []
              \<and> length ts \<notin> set removed \<and> target \<noteq> Some (length ts)
              \<and> length ts - 1 \<notin> set removed \<and> target \<noteq> Some (length ts - 1)
              \<and> length ts - 2 \<notin> set removed \<and> target \<noteq> Some (length ts - 2) \<longrightarrow>
             (\<exists>res. rewriteCode relative fileRegex whiteRegex ctx deps d = Inr res
                \<and> suffix (newline @ newline) res))"
      by (intro conjI c1 [THEN mp, OF h] c2 [THEN mp, OF h] c3 [THEN mp, OF h] c4 [THEN mp, OF h] c5 [THEN mp, OF h] c6 [THEN mp, OF h] c7 [THEN mp, OF h] c8 [THEN mp, OF h] c9 [THEN mp, OF h] c10 [THEN mp, OF h])
  qed
  have e: "resolveIdents_root missingIdents deps rs = Inr (libs', removed')
       \<and> composeRequires_root pkgRegex relative st libs' d = Inr block''
       \<and> addRequiresLine rs = Inr target' \<longrightarrow>
         (rs = [] \<longrightarrow> target' = 0 \<and> removed' = [])
         \<and> (\<forall>r rest n. rs = r # rest \<and> node r = Some n \<longrightarrow> target' = line (locStart n))
         \<and> (ls \<noteq> [] \<and> length ls \<notin> set removed' \<and> target' \<noteq> length ls
              \<and> last ls \<noteq> [] \<and> last (last ls) \<noteq> CHR 0x0A \<longrightarrow>
             (\<exists>res. rewriteCode_root pkgRegex relative st ls rs missingIdents deps d = Inr res
                \<and> suffix newline res \<and> \<not> suffix (newline @ newline) res))
         \<and> (2 \<le> length ls \<and> last ls = []
              \<and> length ls \<notin> set removed' \<and> target' \<noteq> length ls
              \<and> length ls - 1 \<notin> set removed' \<and> target' \<noteq> length ls - 1
              \<and> ls ! (length ls - 2) \<noteq> [] \<and> last (ls ! (length ls - 2)) \<noteq> CHR 0x0A \<longrightarrow>
             (\<exists>res. rewriteCode_root pkgRegex relative st ls rs missingIdents deps d = Inr res
                \<and> suffix newline res \<and> \<not> suffix (newline @ newline) res))
         \<and> (3 \<le> length ls \<and> last ls = [] \<and> ls ! (length ls - 2) = []
              \<and> length ls \<notin> set removed' \<and> target' \<noteq> length ls
              \<and> length ls - 1 \<notin> set removed' \<and> target' \<noteq> length ls - 1
              \<and> length ls - 2 \<notin> set removed' \<and> target' \<noteq> length ls - 2 \<longrightarrow>
             (\<exists>res. rewriteCode_root pkgRegex relative st ls rs missingIdents deps d = Inr res
                \<and> suffix (newline @ newline) res))"
  proof (rule impI)
    assume h: "resolveIdents_root missingIdents deps rs = Inr (libs', removed')
       \<and> composeRequires_root pkgRegex relative st libs' d = Inr block''
       \<and> addRequiresLine rs = Inr target'"
    show "(rs = [] \<longrightarrow> target' = 0 \<and> removed' = [])
         \<and> (\<forall>r rest n. rs = r # rest \<and> node r = Some n \<longrightarrow> target' = line (locStart n))
         \<and> (ls \<noteq> [] \<and> length ls \<notin> set removed' \<and> target' \<noteq> length ls
              \<and> last ls \<noteq> [] \<and> last (last ls) \<noteq> CHR 0x0A \<longrightarrow>
             (\<exists>res. rewriteCode_root pkgRegex relative st ls rs missingIdents deps d = Inr res
                \<and> suffix newline res \<and> \<not> suffix (newline @ newline) res))
         \<and> (2 \<le> length ls \<and> last ls = []
              \<and> length ls \<notin> set removed' \<and> target' \<noteq> length ls
              \<and> length ls - 1 \<notin> set removed' \<and> target' \<noteq> length ls - 1
              \<and> ls ! (length ls - 2) \<noteq> [] \<and> last (ls ! (length ls - 2)) \<noteq> CHR 0x0A \<longrightarrow>
             (\<exists>res. rewriteCode_root pkgRegex relative st ls rs missingIdents deps d = Inr res
                \<and> suffix newline res \<and> \<not> suffix (newline @ newline) res))
         \<and> (3 \<le> length ls \<and> last ls = [] \<and> ls ! (length ls - 2) = []
              \<and> length ls \<notin> set removed' \<and> target' \<noteq> length ls
              \<and> length ls - 1 \<notin> set removed' \<and> target' \<noteq> length ls - 1
              \<and> length ls - 2 \<notin> set removed' \<and> target' \<noteq> length ls - 2 \<longrightarrow>
             (\<exists>res. rewriteCode_root pkgRegex relative st ls rs missingIdents deps d = Inr res
                \<and> suffix (newline @ newline) res))"
      by (intro conjI d1 [THEN mp, OF h] d2 [THEN mp, OF h] d3 [THEN mp, OF h] d4 [THEN mp, OF h] d5 [THEN mp, OF h])
  qed
  show ?thesis
    by (intro conjI a b c e)
qed

theorem rewriteCode_ends_with_newline_witness:
  \<open>rewriteCode relativeBelow fileRegexSpec whiteRegexSpec
      (contextOf [''foo();'', []] None False [''foo'']) fooDeps ''/proj''
     = Inr (''const foo = require("bar");'' @ newline @ newline @ ''foo();'' @ newline)
   \<and> suffix newline (''const foo = require("bar");'' @ newline @ newline @ ''foo();'' @ newline)
   \<and> \<not> suffix (newline @ newline)
        (''const foo = require("bar");'' @ newline @ newline @ ''foo();'' @ newline)
   \<and> rewriteCode_root pkgRegexSpec relativeBelow requireStyle [''foo();'', []] [] [''foo'']
        fooDeps ''/proj''
     = Inr (''const foo = require("bar");'' @ newline @ newline @ ''foo();'' @ newline)\<close>
proof -
  let ?ctx = "contextOf [''foo();'', []] None False [''foo'']"
  let ?libs = "[(''bar'', \<lparr>libIdents = [''foo''], libDefaults = [], libProps = []\<rparr>)]"
  let ?block = \<open>''const foo = require("bar");''\<close>
  let ?out = \<open>''const foo = require("bar");'' @ newline @ newline @ ''foo();'' @ newline\<close>
  have lib: "rewriteCode relativeBelow fileRegexSpec whiteRegexSpec ?ctx fooDeps ''/proj'' = Inr ?out"
    by code_simp
  have root: "rewriteCode_root pkgRegexSpec relativeBelow requireStyle [''foo();'', []] []
                [''foo''] fooDeps ''/proj'' = Inr ?out"
    by code_simp
  have h1: "resolveIdents whiteRegexSpec ?ctx fooDeps = Inr (?libs, [])"
    by code_simp
  have h2: "composeRequires relativeBelow fileRegexSpec (style ?ctx) ''/proj'' ?libs = Inr ?block"
    by code_simp
  have h3: "placeRequires ?ctx ?block = Inr (?block @ newline, Some 0, [''foo();'', []])"
    by code_simp
  have h4: "2 \<le> length [''foo();'', []] \<and> last [''foo();'', []] = []
              \<and> length [''foo();'', []] \<notin> set ([] :: nat list)
              \<and> Some 0 \<noteq> Some (length [''foo();'', []])
              \<and> length [''foo();'', []] - 1 \<notin> set ([] :: nat list)
              \<and> Some 0 \<noteq> Some (length [''foo();'', []] - 1)
              \<and> [''foo();'', []] ! (length [''foo();'', []] - 2) \<noteq> []
              \<and> last ([''foo();'', []] ! (length [''foo();'', []] - 2)) \<noteq> CHR 0x0A"
    by simp
  note inst = rewriteCode_ends_with_newline [where relative = relativeBelow
      and fileRegex = fileRegexSpec and whiteRegex = whiteRegexSpec and ctx = ?ctx
      and deps = fooDeps and d = "''/proj''" and out = ?out and pkgRegex = pkgRegexSpec
      and st = requireStyle and ls = "[''foo();'', []]" and rs = "[]"
      and missingIdents = "[''foo'']" and out' = ?out and libs = ?libs and removed = "[]"
      and block = ?block and block' = "?block @ newline" and target = "Some 0"
      and ts = "[''foo();'', []]"]
  from inst lib have "suffix newline ?out"
    by blast
  moreover from inst h1 h2 h3 h4
  have "\<exists>res. rewriteCode relativeBelow fileRegexSpec whiteRegexSpec ?ctx fooDeps ''/proj'' = Inr res
          \<and> suffix newline res \<and> \<not> suffix (newline @ newline) res"
    by blast
  then have "\<not> suffix (newline @ newline) ?out"
    unfolding lib by simp
  ultimately show ?thesis
    using lib root by simp
qed

text \<open>
  C7 as claimed fails: the lines \<open>a\<close>, empty, empty are those of a text that ends with
  two line breaks, and the text returned for them ends with two line breaks. So does the
  text returned for five lines of which the first and the last are imports, with two empty
  lines before the last: a text without a line break at its end.
\<close>

theorem rewriteCode_ends_with_newline_counterexample:
  \<open>rewriteCode relativeBelow fileRegexSpec whiteRegexSpec
      (contextOf [''a'', [], []] None False []) Map.empty ''/proj''
     = Inr (''a'' @ newline @ newline)
   \<and> rewriteCode_root pkgRegexSpec relativeBelow requireStyle [''a'', [], []] [] [] Map.empty ''/proj''
     = Inr (''a'' @ newline @ newline)
   \<and> rewriteCode relativeBelow fileRegexSpec whiteRegexSpec
       \<lparr>reqs = [\<lparr>node = Some (nodeAt 1 0 1 23), depID = ''a'', reqIdents = Some [''a''],
                  reqDefaults = None, reqProps = None\<rparr>,
                \<lparr>node = Some (nodeAt 5 0 5 23), depID = ''b'', reqIdents = Some [''b''],
                  reqDefaults = None, reqProps = None\<rparr>],
         style = requireStyle,
         textLines = [''const a = require("a");'', ''foo(a);'', [], [], ''const b = require("b");''],
         useStrict = None, endsLine = (\<lambda>n. True),
         globalScope = \<lparr>through = [], declared = [''a'', ''b'']\<rparr>\<rparr> Map.empty ''/proj''
     = Inr (''const a = require("a");'' @ newline @ ''const b = require("b");'' @ newline
            @ ''foo(a);'' @ newline @ newline)\<close>
  by code_simp

subsection \<open>Nothing to add and nothing to remove\<close>













subsection \<open>A directive that shares its line\<close>

text \<open>
  C9. The claim: the block is spliced into the directive's line at the directive's end
  column, and every character of the rest of that line is kept. On the code, with the
  line \<open>"use strict";foo();\<close> (the directive ends at column 13) and \<open>foo\<close> found in the
  package \<open>bar\<close>, the rest of the line comes out as \<open>oo();\<close>: the text after the block
  starts at column 14.
\<close>

theorem rewriteCode_splice_drops_character:
  \<open>rewriteCode relativeBelow fileRegexSpec whiteRegexSpec
      (contextOf [''"use strict";foo();'', []] (Some (nodeAt 1 0 1 13)) False [''foo''])
      fooDeps ''/proj''
     = Inr (''"use strict";'' @ newline @ newline @ ''const foo = require("bar");''
            @ newline @ newline @ ''oo();'' @ newline)
   \<and> spliceInto ''"use strict";foo();'' 13 ''R''
     = ''"use strict";'' @ newline @ newline @ ''R'' @ newline @ newline @ ''oo();''\<close>
  by code_simp

section \<open>Properties of the entry point\<close>

text \<open>
  C10. \<open>run\<close> of \<open>importer.js\<close> throws the error \<open>must provide code and dir\<close> by itself,
  before any promise exists, whenever \<open>code\<close> or \<open>dir\<close> is falsy, the empty string
  included; otherwise it returns a promise.
\<close>

theorem run_requires_code_and_dir:
  "(\<not> truthy code \<or> \<not> truthy d0 \<longrightarrow> run env code d0 = Inl (Error ''must provide code and dir''))
   \<and> run env (Some []) d0 = Inl (Error ''must provide code and dir'')
   \<and> run env None d0 = Inl (Error ''must provide code and dir'')
   \<and> (truthy code \<and> truthy d0 \<longrightarrow> (\<exists>promise. run env code d0 = Inr promise))"
  by (auto simp: run_def truthy_def Let_def)


theorem run_requires_code_and_dir_witness:
  \<open>run exampleEnv (Some []) (Some ''/proj'') = Inl (Error ''must provide code and dir'')
   \<and> run exampleEnv (Some ''foo();'') None = Inl (Error ''must provide code and dir'')
   \<and> run exampleEnv (Some ''foo();'') (Some ''/proj'')
     = Inr (Inr (''const foo = require("bar");'' @ newline @ newline @ ''foo();'' @ newline))\<close>
proof -
  have t: "\<not> truthy (Some []) \<or> \<not> truthy (Some ''/proj'')"
    and u: "\<not> truthy (Some ''foo();'') \<or> \<not> truthy None"
    by (simp_all add: truthy_def)
  have a: "run exampleEnv (Some []) (Some ''/proj'') = Inl (Error ''must provide code and dir'')"
    using run_requires_code_and_dir [of "Some []" "Some ''/proj''" exampleEnv] t by blast
  have b: "run exampleEnv (Some ''foo();'') None = Inl (Error ''must provide code and dir'')"
    using run_requires_code_and_dir [of "Some ''foo();''" None exampleEnv] u by blast
  have c: \<open>run exampleEnv (Some ''foo();'') (Some ''/proj'')
     = Inr (Inr (''const foo = require("bar");'' @ newline @ newline @ ''foo();'' @ newline))\<close>
    by code_simp
  from a b c show ?thesis by simp
qed

end
